theory Spec2Isabelle
  imports Main "HOL-Library.Word" "HOL-Library.Sublist"
begin

unbundle bit_operations_syntax

section \<open>Certificate verification of pam\_pkcs11 (src/common/cert\_vfy.c)\<close>

subsection \<open>Machine types and undefined behaviour\<close>

text \<open>
  Bytes are \<open>unsigned char\<close>, \<open>size_t\<close> is taken as 64 bits wide and \<open>unsigned int\<close> as
  32 bits wide (LP64). A C \<open>int\<close> that the code only compares and returns is an \<open>int\<close>.
  A pointer into a byte object is the list of the bytes from the pointer to the end of
  the object: \<open>*p\<close> is the head, \<open>p++\<close> the tail, and a read where the list is empty
  is a read outside the object.
\<close>

type_synonym byte = "8 word"
type_synonym size_t = "64 word"
type_synonym uint = "32 word"

datatype fault =
    Read_out_of_bounds     \<comment> \<open>a read outside the object the pointer points into\<close>
  | Write_out_of_bounds    \<comment> \<open>a write outside the destination buffer\<close>
  | No_termination         \<comment> \<open>a loop that comes back to a state it was in\<close>
  | Use_after_free         \<comment> \<open>a read through a pointer to an object that has been freed\<close>

text \<open>Inside a loop body: leave the function with a value, or go on with the loop state.\<close>

datatype ('r, 'a) step = Return 'r | Continue 'a

definition ch :: "char \<Rightarrow> byte" where
  "ch c = of_char c"

definition bytes_of :: "string \<Rightarrow> byte list" where
  "bytes_of s = map ch s"

text \<open>\<open>strlen\<close>: the offset of the first NUL byte.\<close>

fun strlen :: "byte list \<Rightarrow> fault + nat" where
  "strlen [] = Inl Read_out_of_bounds"
| "strlen (c # cs) =
     (if c = 0 then Inr 0
      else (case strlen cs of Inl f \<Rightarrow> Inl f | Inr n \<Rightarrow> Inr (Suc n)))"

text \<open>The value of a \<open>size_t\<close> returned as \<open>int\<close>, and of an \<open>int\<close> stored in a \<open>size_t\<close>.\<close>

definition int_of_size_t :: "size_t \<Rightarrow> int" where
  "int_of_size_t n = sint (ucast n :: 32 word)"

definition size_t_of_int :: "int \<Rightarrow> size_t" where
  "size_t_of_int r = word_of_int r"

subsection \<open>\<open>base64_to_bin\<close> (lines 27--70)\<close>

text \<open>
  The inner \<open>for (i = 0; i < 4;)\<close> loop, lines 37--53. A character of the alphabet stores
  its value in \<open>val[i++]\<close>, \<open>=\<close> stores 0 and counts a pad, any other character stores
  nothing; every character advances \<open>str\<close> and decrements \<open>str_len\<close>. The test
  \<open>--str_len < 0\<close> is on a \<open>size_t\<close>.
\<close>

definition b64_char ::
  "byte \<Rightarrow> nat \<Rightarrow> byte list \<Rightarrow> size_t \<Rightarrow> nat \<times> byte list \<times> size_t" where
  "b64_char c i val pad_len =
     (if ch CHR ''A'' \<le> c \<and> c \<le> ch CHR ''Z'' then
        (i + 1, val[i := c - ch CHR ''A''], pad_len)
      else if ch CHR ''a'' \<le> c \<and> c \<le> ch CHR ''z'' then
        (i + 1, val[i := (c - ch CHR ''a'') + 26], pad_len)
      else if ch CHR ''0'' \<le> c \<and> c \<le> ch CHR ''9'' then
        (i + 1, val[i := (c - ch CHR ''0'') + 52], pad_len)
      else if c = ch CHR ''+'' then (i + 1, val[i := 62], pad_len)
      else if c = ch CHR ''/'' then (i + 1, val[i := 63], pad_len)
      else if c = ch CHR ''='' then (i + 1, val[i := 0], pad_len + 1)
      else (i, val, pad_len))"

fun b64_group ::
  "nat \<Rightarrow> byte list \<Rightarrow> byte list \<Rightarrow> size_t \<Rightarrow> size_t \<Rightarrow>
     fault + (int, byte list \<times> byte list \<times> size_t \<times> size_t) step" where
  "b64_group i val str str_len pad_len =
     (if i < 4 then
        (case str of
           [] \<Rightarrow> Inl Read_out_of_bounds
         | c # str' \<Rightarrow>
             (case b64_char c i val pad_len of (i', val', pad_len') \<Rightarrow>
                if str_len - 1 < 0 then Inr (Return (- 1))
                else b64_group i' val' str' (str_len - 1) pad_len'))
      else Inr (Continue (val, str, str_len, pad_len)))"

declare b64_group.simps [simp del]

lemma b64_char_index: "b64_char c i val pad_len = (i', val', pad_len') \<Longrightarrow> i' = i \<or> i' = i + 1"
  by (auto simp: b64_char_def split: if_splits)

lemma b64_group_consumes:
  "b64_group i val str str_len pad_len = Inr (Continue (val', str', str_len', pad_len')) \<Longrightarrow>
     i \<le> 4 \<Longrightarrow> length str' + (4 - i) \<le> length str"
proof (induction i val str str_len pad_len rule: b64_group.induct)
  case (1 i val str str_len pad_len)
  show ?case
  proof (cases "i < 4")
    case False
    with "1.prems" show ?thesis by (simp add: b64_group.simps)
  next
    case True
    show ?thesis
    proof (cases str)
      case Nil
      with True "1.prems" show ?thesis by (simp add: b64_group.simps)
    next
      case (Cons c cs)
      obtain i2 val2 pad2 where st: "b64_char c i val pad_len = (i2, val2, pad2)"
        by (metis prod_cases3)
      have i2: "i2 = i \<or> i2 = i + 1"
        using st by (rule b64_char_index)
      have run: "b64_group i2 val2 cs (str_len - 1) pad2 =
                   Inr (Continue (val', str', str_len', pad_len'))"
        using "1.prems"(1) True Cons st
        by (subst (asm) b64_group.simps) simp
      have "length str' + (4 - i2) \<le> length cs"
        using "1.IH" [OF True Cons st [symmetric] refl _ run] i2 True
        by auto
      with i2 Cons show ?thesis by auto
    qed
  qed
qed

text \<open>
  Lines 54--67, the bytes of one group. \<open>len\<close> is the C variable \<open>length\<close>, \<open>b\<close> the
  offset of the write pointer in \<open>buf\<close>; a write outside \<open>buf\<close> is a fault. A \<open>break\<close>
  goes to line 69 and returns \<open>length\<close>.
\<close>

definition put :: "byte list \<Rightarrow> nat \<Rightarrow> byte \<Rightarrow> fault + byte list" where
  "put buf b v = (if b < length buf then Inr (buf[b := v]) else Inl Write_out_of_bounds)"

definition b64_emit ::
  "byte list \<Rightarrow> size_t \<Rightarrow> size_t \<Rightarrow> byte list \<Rightarrow> nat \<Rightarrow> size_t \<Rightarrow>
     fault + (int \<times> byte list, size_t \<times> byte list \<times> nat) step" where
  "b64_emit val pad_len len buf b buf_len =
     (if len + 1 > buf_len then Inr (Return (- 1, buf))
      else (case put buf b (push_bit 2 (val ! 0) + drop_bit 4 (val ! 1)) of
        Inl f \<Rightarrow> Inl f
      | Inr buf1 \<Rightarrow>
          if pad_len = 2 then Inr (Return (int_of_size_t (len + 1), buf1))
          else if len + 2 > buf_len then Inr (Return (- 1, buf1))
          else (case put buf1 (b + 1) (push_bit 4 (val ! 1) + drop_bit 2 (val ! 2)) of
            Inl f \<Rightarrow> Inl f
          | Inr buf2 \<Rightarrow>
              if pad_len = 1 then Inr (Return (int_of_size_t (len + 2), buf2))
              else if len + 3 > buf_len then Inr (Return (- 1, buf2))
              else (case put buf2 (b + 2) (push_bit 6 (val ! 2) + val ! 3) of
                Inl f \<Rightarrow> Inl f
              | Inr buf3 \<Rightarrow> Inr (Continue (len + 3, buf3, b + 3))))))"

text \<open>The \<open>while (str_len > 3)\<close> loop, lines 35--68, and the return of line 69.\<close>

function b64_loop ::
  "byte list \<Rightarrow> size_t \<Rightarrow> size_t \<Rightarrow> size_t \<Rightarrow> byte list \<Rightarrow> byte list \<Rightarrow> nat \<Rightarrow> size_t \<Rightarrow>
     fault + (int \<times> byte list)" where
  "b64_loop str str_len pad_len len val buf b buf_len =
     (if str_len > 3 then
        (case b64_group 0 val str str_len pad_len of
           Inl f \<Rightarrow> Inl f
         | Inr (Return r) \<Rightarrow> Inr (r, buf)
         | Inr (Continue (val', str', str_len', pad_len')) \<Rightarrow>
             (case b64_emit val' pad_len' len buf b buf_len of
                Inl f \<Rightarrow> Inl f
              | Inr (Return res) \<Rightarrow> Inr res
              | Inr (Continue (len', buf', b')) \<Rightarrow>
                  b64_loop str' str_len' pad_len' len' val' buf' b' buf_len))
      else Inr (int_of_size_t len, buf))"
  by pat_completeness auto
termination
proof (relation "measure (\<lambda>(str, str_len, pad_len, len, val, buf, b, buf_len). length str)",
    goal_cases)
  case 1
  show ?case by simp
next
  case (2 str str_len pad_len len val buf b buf_len x2 x2a x1 x2b x1a x2c x1b x2d)
  then have "b64_group 0 val str str_len pad_len = Inr (Continue (x1, x1a, x1b, x2d))"
    by simp
  from b64_group_consumes [OF this] have "length x1a + 4 \<le> length str" by simp
  then show ?case by simp
qed

declare b64_loop.simps [simp del]

text \<open>
  The function: \<open>str\<close> is the memory from the pointer on, \<open>buf\<close> the destination with
  its contents before the call. The array \<open>val\<close> is not initialised; every group writes
  its four cells before they are read.
\<close>

definition base64_to_bin :: "byte list \<Rightarrow> byte list \<Rightarrow> size_t \<Rightarrow> fault + (int \<times> byte list)" where
  "base64_to_bin str buf buf_len =
     (case strlen str of
        Inl f \<Rightarrow> Inl f
      | Inr n \<Rightarrow> b64_loop str (of_nat n) 0 0 [0, 0, 0, 0] buf 0 buf_len)"

subsection \<open>Certificates, revocation lists and the collaborators\<close>

text \<open>
  The OpenSSL structures, with the fields this file reads. A pointer that the code
  tests against \<open>NULL\<close> is an \<open>option\<close>.
\<close>

type_synonym X509_NAME = string
type_synonym ASN1_INTEGER = int
type_synonym ASN1_TIME = string
type_synonym EVP_PKEY = string

datatype GENERAL_NAME = GEN_URI string | GEN_OTHER

datatype DIST_POINT_NAME = DIST_POINT_NAME (fullname: "GENERAL_NAME option list option")

datatype DIST_POINT = DIST_POINT (distpoint: "DIST_POINT_NAME option")

record X509 =
  issuer_name :: X509_NAME
  serialNumber :: ASN1_INTEGER
  crl_distribution_points :: "DIST_POINT list option"
  pubkey :: "EVP_PKEY option"

record X509_REVOKED =
  rev_serialNumber :: ASN1_INTEGER
  rev_revocationDate :: ASN1_TIME

record X509_CRL =
  crl_issuer :: X509_NAME
  revoked :: "X509_REVOKED list"
  lastUpdate :: ASN1_TIME
  nextUpdate :: ASN1_TIME

text \<open>
  Modelled from the spec: the enumeration \<open>crl_policy_t\<close> of cert\_vfy.h, which is not
  among the sources: "one of four mutually exclusive modes: NONE, OFFLINE, ONLINE, AUTO".
  A C enumeration can hold any other integer as well; \<open>check_for_revocation\<close> has a
  branch for it.
\<close>

datatype crl_policy_t = CRLP_NONE | CRLP_ONLINE | CRLP_OFFLINE | CRLP_AUTO | CRLP_invalid int

datatype X509_LU = X509_LU_X509 | X509_LU_CRL

datatype X509_FILETYPE = X509_FILETYPE_PEM | X509_FILETYPE_ASN1

text \<open>
  The validation context over the store of the two directories: what
  \<open>X509_STORE_get_by_subject\<close> answers for a certificate and for a CRL of a name (the
  return value and the object; the object is read only when the value is positive),
  what \<open>X509_verify_cert\<close> returns, and the code it leaves in the field \<open>error\<close>.
\<close>

record X509_STORE_CTX =
  lookup_x509 :: "X509_NAME \<Rightarrow> int \<times> X509"
  lookup_crl :: "X509_NAME \<Rightarrow> int \<times> X509_CRL"
  verify_cert :: int
  ctx_error :: int

text \<open>
  The collaborators: the URI fetcher (uri.h), the allocator and OpenSSL.
  \<open>get_from_uri\<close> gives its return value and the buffer, whose length is \<open>data_len\<close>;
  \<open>d2i_X509_CRL\<close> takes the buffer and the length argument;
  \<open>X509_verify_cert_error_string\<close> takes the error code of a context.
\<close>

record env =
  get_from_uri :: "string \<Rightarrow> int \<times> byte list"
  malloc :: "size_t \<Rightarrow> bool"
  d2i_X509_CRL :: "byte list \<Rightarrow> int \<Rightarrow> X509_CRL option"
  X509_CRL_verify :: "X509_CRL \<Rightarrow> EVP_PKEY \<Rightarrow> int"
  X509_cmp_current_time :: "ASN1_TIME \<Rightarrow> int"
  ERR_error_string :: string
  X509_STORE_new :: bool
  X509_STORE_add_lookup :: bool
  X509_LOOKUP_add_dir :: "string \<Rightarrow> X509_FILETYPE \<Rightarrow> int"
  X509_STORE_CTX_new :: "string \<Rightarrow> string \<Rightarrow> X509 \<Rightarrow> X509_STORE_CTX option"
  X509_verify_cert_error_string :: "int \<Rightarrow> string"

text \<open>
  The error slot of error.h and the debug output of debug.h. A message is the format
  string with its arguments; \<open>get_error()\<close> as an argument is the message in the slot.
  The trace lists, in order, the debug output and the calls of collaborators.
\<close>

datatype msg = Msg string "msg list" | Str string | Policy crl_policy_t

datatype event =
    Dbg msg
  | Call_get_from_uri string
  | Call_d2i_X509_CRL int
  | Call_X509_STORE_get_by_subject X509_LU X509_NAME
  | Call_X509_CRL_verify
  | Call_X509_verify_cert

record state =
  error :: msg
  trace :: "event list"

definition set_error :: "msg \<Rightarrow> state \<Rightarrow> state" where
  "set_error m s = s\<lparr>error := m\<rparr>"

definition get_error :: "state \<Rightarrow> msg" where
  "get_error s = error s"

definition emit :: "event \<Rightarrow> state \<Rightarrow> state" where
  "emit e s = s\<lparr>trace := trace s @ [e]\<rparr>"

definition DBG :: "string \<Rightarrow> state \<Rightarrow> state" where
  "DBG m s = emit (Dbg (Msg m [])) s"

definition DBG1 :: "string \<Rightarrow> msg \<Rightarrow> state \<Rightarrow> state" where
  "DBG1 m a s = emit (Dbg (Msg m [a])) s"

subsection \<open>\<open>download_crl\<close> (lines 72--124)\<close>

text \<open>
  \<open>strncmp\<close> on the memory from \<open>s1\<close> and from \<open>s2\<close>: zero when the first \<open>n\<close>
  characters, or the characters up to a common NUL, are the same.
\<close>

fun strncmp :: "byte list \<Rightarrow> byte list \<Rightarrow> nat \<Rightarrow> fault + int" where
  "strncmp s1 s2 n =
     (if n = 0 then Inr 0
      else (case s1 of
        [] \<Rightarrow> Inl Read_out_of_bounds
      | c1 # s1' \<Rightarrow>
          (case s2 of
             [] \<Rightarrow> Inl Read_out_of_bounds
           | c2 # s2' \<Rightarrow>
               if c1 \<noteq> c2 then Inr (uint c1 - uint c2)
               else if c1 = 0 then Inr 0
               else strncmp s1' s2' (n - 1))))"

declare strncmp.simps [simp del]

text \<open>The markers; the string literals of lines 87 and 91 are the markers with their NUL.\<close>

definition begin_marker :: "byte list" where
  "begin_marker = bytes_of ''-----BEGIN X509 CRL-----''"

definition end_marker :: "byte list" where
  "end_marker = bytes_of ''-----END X509 CRL-----''"

text \<open>
  The two search loops, lines 86--93: \<open>for (i = 0; i <= bound; i++)\<close> with an
  \<open>unsigned int\<close> index compared against the \<open>size_t\<close> bound \<open>data_len - n\<close>, left at
  the first \<open>i\<close> where \<open>strncmp(&data[i], mark, n)\<close> is zero. When \<open>i++\<close> wraps to 0
  the loop is back in its first state, with nothing changed: it never ends.
\<close>

function find_marker :: "byte list \<Rightarrow> byte list \<Rightarrow> nat \<Rightarrow> size_t \<Rightarrow> uint \<Rightarrow> fault + uint" where
  "find_marker data mark n bound i =
     (if ucast i \<le> bound then
        (case strncmp (drop (unat i) data) mark n of
           Inl f \<Rightarrow> Inl f
         | Inr r \<Rightarrow>
             if r = 0 then Inr i
             else if i + 1 = 0 then Inl No_termination
             else find_marker data mark n bound (i + 1))
      else Inr i)"
  by pat_completeness auto
termination
proof (relation "measure (\<lambda>(data, mark, n, bound, i). unat (- 1 - i))", goal_cases)
  case 1
  show ?case by simp
next
  case (2 data mark n bound i r)
  from \<open>i + 1 \<noteq> 0\<close> have "unat (i + 1) = Suc (unat i)"
    using unatSuc [of i] by (simp add: add.commute)
  moreover have "unat (- 1 - (i + 1)) = unat (- 1 :: uint) - unat (i + 1)"
    by (rule unat_sub) simp
  moreover have "unat (- 1 - i) = unat (- 1 :: uint) - unat i"
    by (rule unat_sub) simp
  moreover have "unat (i + 1) \<le> unat (- 1 :: uint)"
    by (metis word_le_nat_alt word_n1_ge)
  ultimately show ?case by simp
qed

declare find_marker.simps [simp del]

text \<open>The end of both branches, lines 112, 118 and 121--123.\<close>

definition parse_der :: "env \<Rightarrow> byte list \<Rightarrow> size_t \<Rightarrow> state \<Rightarrow> X509_CRL option \<times> state" where
  "parse_der env p len s =
     (let s1 = emit (Call_d2i_X509_CRL (sint len)) s
      in case d2i_X509_CRL env p (sint len) of
           None \<Rightarrow> (None, set_error (Msg ''d2i_X509_CRL() failed'' []) s1)
         | Some crl \<Rightarrow> (Some crl, s1))"

definition download_crl :: "env \<Rightarrow> string \<Rightarrow> state \<Rightarrow> fault + (X509_CRL option \<times> state)" where
  "download_crl env uri s =
     (let s1 = emit (Call_get_from_uri uri) s;
          (rv, data) = get_from_uri env uri;
          data_len = (of_nat (length data) :: size_t)
      in if rv \<noteq> 0 then
           Inr (None, set_error (Msg ''get_from_uri() failed: %s'' [get_error s1]) s1)
         else
           (case find_marker data (begin_marker @ [0]) 24 (data_len - 24) 0 of
              Inl f \<Rightarrow> Inl f
            | Inr i \<Rightarrow>
           (case find_marker data (end_marker @ [0]) 22 (data_len - 22) 0 of
              Inl f \<Rightarrow> Inl f
            | Inr j \<Rightarrow>
                if ucast i \<le> data_len - 24 \<and> ucast j \<le> data_len - 22 \<and> i < j then
                  (let s2 = DBG ''crl is base64 encoded'' s1;
                       der_len = (ucast (j - i + 1) :: size_t)
                   in if \<not> malloc env der_len then
                        Inr (None, set_error (Msg ''not enough free memory available'' []) s2)
                      else
                        (case put data (unat j) 0 of
                           Inl f \<Rightarrow> Inl f
                         | Inr data' \<Rightarrow>
                        (case base64_to_bin (drop (unat (i + 24)) data')
                                (replicate (unat der_len) 0) der_len of
                           Inl f \<Rightarrow> Inl f
                         | Inr (r, der) \<Rightarrow>
                             (let der_len' = size_t_of_int r
                              in if der_len' \<le> 0 then
                                   Inr (None, set_error (Msg ''invalid base64 (pem) format'' []) s2)
                                 else Inr (parse_der env der der_len' s2)))))
                else Inr (parse_der env data data_len (DBG ''crl is der encoded'' s1)))))"

subsection \<open>\<open>verify_crl\<close> (lines 126--174)\<close>

definition X509_STORE_get_by_subject_x509 ::
  "X509_STORE_CTX \<Rightarrow> X509_NAME \<Rightarrow> state \<Rightarrow> (int \<times> X509) \<times> state" where
  "X509_STORE_get_by_subject_x509 ctx name s =
     (lookup_x509 ctx name, emit (Call_X509_STORE_get_by_subject X509_LU_X509 name) s)"

definition X509_STORE_get_by_subject_crl ::
  "X509_STORE_CTX \<Rightarrow> X509_NAME \<Rightarrow> state \<Rightarrow> (int \<times> X509_CRL) \<times> state" where
  "X509_STORE_get_by_subject_crl ctx name s =
     (lookup_crl ctx name, emit (Call_X509_STORE_get_by_subject X509_LU_CRL name) s)"

definition verify_crl :: "env \<Rightarrow> X509_CRL \<Rightarrow> X509_STORE_CTX \<Rightarrow> state \<Rightarrow> int \<times> state" where
  "verify_crl env crl ctx s =
     (case X509_STORE_get_by_subject_x509 ctx (crl_issuer crl) s of
        ((rv, obj), s1) \<Rightarrow>
          if rv \<le> 0 then
            (- 1, set_error (Msg ''getting the certificate of the crl-issuer failed'' []) s1)
          else
            (case pubkey obj of
               None \<Rightarrow> (- 1, set_error (Msg ''getting the issuer's public key failed'' []) s1)
             | Some pkey \<Rightarrow>
                 (let rv = X509_CRL_verify env crl pkey;
                      s2 = emit Call_X509_CRL_verify s1
                  in if rv < 0 then
                       (- 1, set_error (Msg ''X509_CRL_verify() failed: %s''
                                          [Str (ERR_error_string env)]) s2)
                     else if rv = 0 then (0, DBG ''crl is invalid'' s2)
                     else
                       (let rv = X509_cmp_current_time env (lastUpdate crl)
                        in if rv = 0 then
                             (- 1, set_error (Msg ''crl has an invalid last update field'' []) s2)
                           else if rv > 0 then (0, DBG ''crl is not yet valid'' s2)
                           else
                             (let rv = X509_cmp_current_time env (nextUpdate crl)
                              in if rv = 0 then
                                   (- 1, set_error
                                      (Msg ''crl has an invalid next update field'' []) s2)
                                 else if rv < 0 then (0, DBG ''crl has expired'' s2)
                                 else (1, s2))))))"

subsection \<open>\<open>check_for_revocation\<close> (lines 183--280)\<close>

text \<open>
  \<open>sk_X509_REVOKED_find\<close> of OpenSSL, whose comparison of two entries is the
  comparison of their serial numbers: the index of an entry with the serial number
  looked for, \<open>-1\<close> when there is none.
\<close>

fun sk_find_from :: "int \<Rightarrow> X509_REVOKED list \<Rightarrow> ASN1_INTEGER \<Rightarrow> int" where
  "sk_find_from k [] n = - 1"
| "sk_find_from k (r # rs) n = (if rev_serialNumber r = n then k else sk_find_from (k + 1) rs n)"

definition sk_X509_REVOKED_find :: "X509_REVOKED list \<Rightarrow> ASN1_INTEGER \<Rightarrow> int" where
  "sk_X509_REVOKED_find sk n = sk_find_from 0 sk n"

text \<open>Lines 266--279: verify the CRL in hand, then look the serial number up.\<close>

definition revocation_in_crl ::
  "env \<Rightarrow> X509 \<Rightarrow> X509_STORE_CTX \<Rightarrow> X509_CRL \<Rightarrow> state \<Rightarrow> int \<times> state" where
  "revocation_in_crl env x509 ctx crl s =
     (case verify_crl env crl ctx (DBG ''verifying crl'' s) of
        (rv, s1) \<Rightarrow>
          if rv < 0 then (- 1, set_error (Msg ''verify_crl() failed: %s'' [get_error s1]) s1)
          else if rv = 0 then (0, s1)
          else
            (let rv = sk_X509_REVOKED_find (revoked crl) (serialNumber x509)
             in ((if rv = - 1 then 1 else 0), s1)))"

text \<open>
  The loop over the general names of one distribution point, lines 239--254: every
  name of type URI is downloaded, until one download gives a CRL.
\<close>

fun try_names ::
  "env \<Rightarrow> GENERAL_NAME option list \<Rightarrow> state \<Rightarrow> fault + (X509_CRL option \<times> state)" where
  "try_names env [] s = Inr (None, s)"
| "try_names env (name # names) s =
     (case name of
        Some (GEN_URI uri) \<Rightarrow>
          (case download_crl env uri (DBG1 ''downloading crl from %s'' (Str uri) s) of
             Inl f \<Rightarrow> Inl f
           | Inr (Some crl, s1) \<Rightarrow> Inr (Some crl, s1)
           | Inr (None, s1) \<Rightarrow>
               try_names env names (DBG1 ''download_crl() failed: %s'' (get_error s1) s1))
      | _ \<Rightarrow> try_names env names s)"

text \<open>
  The loop over the distribution points, lines 235--256, which goes on while
  \<open>crl == NULL\<close>; a point without a full name is passed over.
\<close>

fun try_points ::
  "env \<Rightarrow> DIST_POINT list \<Rightarrow> state \<Rightarrow> fault + (X509_CRL option \<times> state)" where
  "try_points env [] s = Inr (None, s)"
| "try_points env (point # points) s =
     (case distpoint point of
        None \<Rightarrow> try_points env points s
      | Some dpn \<Rightarrow>
          (case fullname dpn of
             None \<Rightarrow> try_points env points s
           | Some names \<Rightarrow>
               (case try_names env names s of
                  Inl f \<Rightarrow> Inl f
                | Inr (Some crl, s1) \<Rightarrow> Inr (Some crl, s1)
                | Inr (None, s1) \<Rightarrow> try_points env points s1)))"

text \<open>
  Lines 219--233: the distribution points of the certificate, or else those of the
  certificate of its issuer in the store; \<open>None\<close> where the code returns \<open>-1\<close>.
\<close>

definition crl_dist_points ::
  "X509 \<Rightarrow> X509_STORE_CTX \<Rightarrow> state \<Rightarrow> DIST_POINT list option \<times> state" where
  "crl_dist_points x509 ctx s =
     (case crl_distribution_points x509 of
        Some dist_points \<Rightarrow> (Some dist_points, s)
      | None \<Rightarrow>
          (case X509_STORE_get_by_subject_x509 ctx (issuer_name x509) s of
             ((rv, obj), s1) \<Rightarrow>
               if rv \<le> 0 then
                 (None, set_error (Msg ''no dedicated ca certificate available'' []) s1)
               else
                 (case crl_distribution_points obj of
                    None \<Rightarrow>
                      (None, set_error (Msg (''neither the user nor the ca certificate''
                         @ '' does contain a crl distribution point'') []) s1)
                  | Some dist_points \<Rightarrow> (Some dist_points, s1))))"

function check_for_revocation ::
  "env \<Rightarrow> X509 \<Rightarrow> X509_STORE_CTX \<Rightarrow> crl_policy_t \<Rightarrow> state \<Rightarrow> fault + (int \<times> state)" where
  "check_for_revocation env x509 ctx policy s0 =
     (let s = DBG1 ''crl policy: %d'' (Policy policy) s0
      in if policy = CRLP_NONE then
           Inr (1, DBG ''no revocation-check performed'' s)
         else if policy = CRLP_AUTO then
           (case check_for_revocation env x509 ctx CRLP_ONLINE s of
              Inl f \<Rightarrow> Inl f
            | Inr (rv, s1) \<Rightarrow>
                if rv < 0 then
                  check_for_revocation env x509 ctx CRLP_OFFLINE
                    (DBG1 ''check_for_revocation() failed: %s'' (get_error s1) s1)
                else Inr (rv, s1))
         else if policy = CRLP_OFFLINE then
           (case X509_STORE_get_by_subject_crl ctx (issuer_name x509)
                   (DBG ''looking for an dedicated local crl'' s) of
              ((rv, obj), s1) \<Rightarrow>
                if rv \<le> 0 then Inr (- 1, set_error (Msg ''no dedicated crl available'' []) s1)
                else Inr (revocation_in_crl env x509 ctx obj s1))
         else if policy = CRLP_ONLINE then
           (case crl_dist_points x509 ctx (DBG ''extracting crl distribution points'' s) of
              (None, s1) \<Rightarrow> Inr (- 1, s1)
            | (Some dist_points, s1) \<Rightarrow>
                (case try_points env dist_points s1 of
                   Inl f \<Rightarrow> Inl f
                 | Inr (None, s2) \<Rightarrow>
                     Inr (- 1, set_error
                            (Msg ''downloading the crl failed for all distribution points'' [])
                            s2)
                 | Inr (Some crl, s2) \<Rightarrow> Inr (revocation_in_crl env x509 ctx crl s2)))
         else Inr (- 1, set_error (Msg ''policy %d is not supported'' [Policy policy]) s))"
  by pat_completeness auto
termination
  by (relation "measure (\<lambda>(env, x509, ctx, policy, s). if policy = CRLP_AUTO then 1 else 0)")
    auto

declare check_for_revocation.simps [simp del]

subsection \<open>\<open>verify_certificate\<close> (lines 282--363)\<close>

text \<open>
  The pointer \<open>ctx\<close> is the context while the context is live. \<open>X509_STORE_CTX_free\<close>
  ends the life of the context: the pointer refers to no object from then on, and a read
  of a field through it is a read of freed memory. In the branch of lines 342--346 the
  context is freed at line 343 and \<open>ctx->error\<close> is read at line 345, for the message
  of \<open>set_error\<close>, before the \<open>return 0\<close> of line 346.
\<close>

definition X509_STORE_CTX_free :: "X509_STORE_CTX option \<Rightarrow> X509_STORE_CTX option" where
  "X509_STORE_CTX_free p = None"

definition read_ctx_error :: "X509_STORE_CTX option \<Rightarrow> fault + int" where
  "read_ctx_error p = (case p of None \<Rightarrow> Inl Use_after_free | Some ctx \<Rightarrow> Inr (ctx_error ctx))"

definition verify_certificate ::
  "env \<Rightarrow> X509 \<Rightarrow> string \<Rightarrow> string \<Rightarrow> crl_policy_t \<Rightarrow> state \<Rightarrow> fault + (int \<times> state)" where
  "verify_certificate env x509 ca_dir crl_dir policy s =
     (if \<not> X509_STORE_new env then
        Inr (- 1, set_error (Msg ''X509_STORE_new() failed: %s'' [Str (ERR_error_string env)]) s)
      else if \<not> X509_STORE_add_lookup env then
        Inr (- 1, set_error (Msg ''X509_STORE_add_lookup() failed: %s''
                              [Str (ERR_error_string env)]) s)
      else
        (let s1 = DBG1 ''adding ca certificate lookup dir %s'' (Str ca_dir) s
         in if X509_LOOKUP_add_dir env ca_dir X509_FILETYPE_PEM \<noteq> 1 then
              Inr (- 1, set_error (Msg ''X509_LOOKUP_add_dir(PEM) failed: %s''
                                    [Str (ERR_error_string env)]) s1)
            else if X509_LOOKUP_add_dir env ca_dir X509_FILETYPE_ASN1 \<noteq> 1 then
              Inr (- 1, set_error (Msg ''X509_LOOKUP_add_dir(ASN1) failed: %s''
                                    [Str (ERR_error_string env)]) s1)
            else
              (let s2 = DBG1 ''adding crl lookup dir %s'' (Str crl_dir) s1
               in if X509_LOOKUP_add_dir env crl_dir X509_FILETYPE_PEM \<noteq> 1 then
                    Inr (- 1, set_error (Msg ''X509_LOOKUP_add_dir(PEM) failed: %s''
                                          [Str (ERR_error_string env)]) s2)
                  else if X509_LOOKUP_add_dir env crl_dir X509_FILETYPE_ASN1 \<noteq> 1 then
                    Inr (- 1, set_error (Msg ''X509_LOOKUP_add_dir(ASN1) failed: %s''
                                          [Str (ERR_error_string env)]) s2)
                  else
                    (case X509_STORE_CTX_new env ca_dir crl_dir x509 of
                       None \<Rightarrow>
                         Inr (- 1, set_error (Msg ''X509_STORE_CTX_new() failed: %s''
                                               [Str (ERR_error_string env)]) s2)
                     | Some ctx \<Rightarrow>
                         (let rv = verify_cert ctx;
                              s3 = emit Call_X509_verify_cert s2
                          in if rv \<noteq> 1 then
                               (let p = X509_STORE_CTX_free (Some ctx)
                                in case read_ctx_error p of
                                     Inl f \<Rightarrow> Inl f
                                   | Inr e \<Rightarrow>
                                       Inr (0, set_error
                                              (Msg ''certificate is invalid: %s''
                                                 [Str (X509_verify_cert_error_string env e)])
                                              s3))
                             else
                               (case check_for_revocation env x509 ctx policy
                                       (DBG ''certificate is valid'' s3) of
                                  Inl f \<Rightarrow> Inl f
                                | Inr (rv, s4) \<Rightarrow>
                                    if rv < 0 then
                                      Inr (- 1, set_error
                                             (Msg ''check_for_revocation() failed: %s''
                                                [get_error s4]) s4)
                                    else if rv = 0 then
                                      Inr (rv, DBG ''certificate has been revoked'' s4)
                                    else
                                      Inr (rv, DBG ''certificate has not been revoked'' s4)))))))"

subsection \<open>Observing the trace\<close>

text \<open>The calls that fetch from a URI or look a certificate or a CRL up in the store.\<close>

fun crl_io :: "event \<Rightarrow> bool" where
  "crl_io (Call_get_from_uri uri) = True"
| "crl_io (Call_X509_STORE_get_by_subject t n) = True"
| "crl_io e = False"

text \<open>
  The lookup of a CRL in the store, which is the first step of the OFFLINE check
  (line 209) and of nothing else.
\<close>

fun local_crl_lookup :: "event \<Rightarrow> bool" where
  "local_crl_lookup (Call_X509_STORE_get_by_subject X509_LU_CRL n) = True"
| "local_crl_lookup e = False"

text \<open>
  The framing of a fetched buffer in the words of the specification: both markers are
  found and the BEGIN marker precedes the END marker. \<open>first_at\<close> is the offset of the
  first occurrence of a marker, \<open>pem_framing\<close> the two offsets when the buffer is PEM.
\<close>

fun first_at :: "byte list \<Rightarrow> byte list \<Rightarrow> nat option" where
  "first_at mark [] = (if mark = [] then Some 0 else None)"
| "first_at mark (x # xs) =
     (if prefix mark (x # xs) then Some 0 else map_option Suc (first_at mark xs))"

definition pem_framing :: "byte list \<Rightarrow> (nat \<times> nat) option" where
  "pem_framing data =
     (case first_at begin_marker data of
        None \<Rightarrow> None
      | Some i \<Rightarrow>
          (case first_at end_marker data of
             None \<Rightarrow> None
           | Some j \<Rightarrow> if i < j then Some (i, j) else None))"

text \<open>
  The debug output of \<open>verify_crl\<close> where it returns 0: a trace holds one of the
  three lines when the verifier has judged a CRL invalid, not yet valid or expired.
\<close>

definition crl_rejected :: "event list \<Rightarrow> bool" where
  "crl_rejected t =
     (Dbg (Msg ''crl is invalid'' []) \<in> set t \<or>
      Dbg (Msg ''crl is not yet valid'' []) \<in> set t \<or>
      Dbg (Msg ''crl has expired'' []) \<in> set t)"

subsection \<open>A concrete store, for evaluating the functions\<close>

definition ca_cert :: X509 where
  "ca_cert = \<lparr>issuer_name = ''Root'', serialNumber = 1,
               crl_distribution_points = None, pubkey = Some ''ca-key''\<rparr>"

definition leaf_cert :: "ASN1_INTEGER \<Rightarrow> X509" where
  "leaf_cert n = \<lparr>issuer_name = ''CA'', serialNumber = n,
                   crl_distribution_points = None, pubkey = Some ''leaf-key''\<rparr>"

text \<open>
  The same certificate with two distribution points: one without a name, one whose full
  name holds a name that is no URI and then a URI.
\<close>

definition leaf_with_uri :: "ASN1_INTEGER \<Rightarrow> X509" where
  "leaf_with_uri n =
     (leaf_cert n)\<lparr>crl_distribution_points :=
        Some [DIST_POINT None,
              DIST_POINT (Some (DIST_POINT_NAME (Some [Some GEN_OTHER,
                                                       Some (GEN_URI ''http://ca/crl'')])))]\<rparr>"

definition ca_crl :: X509_CRL where
  "ca_crl = \<lparr>crl_issuer = ''CA'',
              revoked = [\<lparr>rev_serialNumber = 5, rev_revocationDate = ''last year''\<rparr>,
                         \<lparr>rev_serialNumber = 7, rev_revocationDate = ''last year''\<rparr>,
                         \<lparr>rev_serialNumber = 9, rev_revocationDate = ''last year''\<rparr>],
              lastUpdate = ''last year'', nextUpdate = ''next year''\<rparr>"

text \<open>
  A CRL of the same issuer in which serial number 8 is the one revoked: in a store with
  this CRL, the OFFLINE check and the check of the CRL downloaded answer differently.
\<close>

definition local_crl :: X509_CRL where
  "local_crl = ca_crl\<lparr>revoked := [\<lparr>rev_serialNumber = 8, rev_revocationDate = ''last year''\<rparr>]\<rparr>"

text \<open>
  The DER encoding of a \<open>CertificateList\<close>, 147 bytes: issuer \<open>CN=CA\<close>, last
  update 30 October 2025, next update 30 October 2027, the revoked serial numbers 5, 7
  and 9, and a signature of two bytes. \<open>ca_crl\<close> is what \<open>d2i_X509_CRL\<close> makes of it.
\<close>

definition der_crl :: "byte list" where
  "der_crl =
     [0x30, 0x81, 0x90, 0x30, 0x7A, 0x30, 0x0D, 0x06, 0x09, 0x2A, 0x86, 0x48,
      0x86, 0xF7, 0x0D, 0x01, 0x01, 0x05, 0x05, 0x00, 0x30, 0x0D, 0x31, 0x0B,
      0x30, 0x09, 0x06, 0x03, 0x55, 0x04, 0x03, 0x13, 0x02, 0x43, 0x41, 0x17,
      0x0D, 0x32, 0x35, 0x31, 0x30, 0x33, 0x30, 0x30, 0x30, 0x30, 0x30, 0x30,
      0x30, 0x5A, 0x17, 0x0D, 0x32, 0x37, 0x31, 0x30, 0x33, 0x30, 0x30, 0x30,
      0x30, 0x30, 0x30, 0x30, 0x5A, 0x30, 0x3C, 0x30, 0x12, 0x02, 0x01, 0x05,
      0x17, 0x0D, 0x32, 0x35, 0x31, 0x30, 0x33, 0x30, 0x30, 0x30, 0x30, 0x30,
      0x30, 0x30, 0x5A, 0x30, 0x12, 0x02, 0x01, 0x07, 0x17, 0x0D, 0x32, 0x35,
      0x31, 0x30, 0x33, 0x30, 0x30, 0x30, 0x30, 0x30, 0x30, 0x30, 0x5A, 0x30,
      0x12, 0x02, 0x01, 0x09, 0x17, 0x0D, 0x32, 0x35, 0x31, 0x30, 0x33, 0x30,
      0x30, 0x30, 0x30, 0x30, 0x30, 0x30, 0x5A, 0x30, 0x0D, 0x06, 0x09, 0x2A,
      0x86, 0x48, 0x86, 0xF7, 0x0D, 0x01, 0x01, 0x05, 0x05, 0x00, 0x03, 0x03,
      0x00, 0xAB, 0xCD]"

text \<open>A store with the certificate of the issuer \<open>CA\<close> and one CRL of that issuer.\<close>

definition store_ctx :: "X509_CRL \<Rightarrow> int \<Rightarrow> X509_STORE_CTX" where
  "store_ctx crl v =
     \<lparr>lookup_x509 = (\<lambda>n. if n = ''CA'' then (1, ca_cert) else (0, ca_cert)),
      lookup_crl = (\<lambda>n. if n = ''CA'' then (1, crl) else (0, crl)),
      verify_cert = v,
      ctx_error = (if v = 1 then 0 else 20)\<rparr>"

text \<open>
  Collaborators that fetch \<open>data\<close> from every URI, parse a buffer that begins with
  the encoding \<open>der_crl\<close> when the length given covers it, take a signature made with
  the key of the issuer, and place \<open>last year\<close> before and \<open>next year\<close> after the
  current time.
\<close>

definition world :: "byte list \<Rightarrow> X509_STORE_CTX \<Rightarrow> env" where
  "world data ctx =
     \<lparr>get_from_uri = (\<lambda>uri. (0, data)),
      malloc = (\<lambda>n. True),
      d2i_X509_CRL =
        (\<lambda>p len. if 147 \<le> len \<and> take 147 p = der_crl then Some ca_crl else None),
      X509_CRL_verify = (\<lambda>crl k. if k = ''ca-key'' then 1 else 0),
      X509_cmp_current_time =
        (\<lambda>t. if t = ''last year'' then - 1 else if t = ''next year'' then 1 else 0),
      ERR_error_string = ''library error'',
      X509_STORE_new = True,
      X509_STORE_add_lookup = True,
      X509_LOOKUP_add_dir = (\<lambda>dir t. 1),
      X509_STORE_CTX_new = (\<lambda>ca_dir crl_dir x509. Some ctx),
      X509_verify_cert_error_string =
        (\<lambda>e. if e = 20 then ''unable to get local issuer certificate'' else ''ok'')\<rparr>"

definition start :: state where
  "start = \<lparr>error = Str [], trace = []\<rparr>"

text \<open>
  Fetched buffers: the PEM file of \<open>der_crl\<close>, in base64 lines of 64 characters;
  \<open>der_crl\<close> itself; \<open>der_crl\<close> followed by the END marker and then the BEGIN
  marker; and a PEM file with four line feeds between the markers and thirty letters
  after the END marker.
\<close>

definition pem_crl :: "byte list" where
  "pem_crl = bytes_of (''-----BEGIN X509 CRL-----'' @ [CHR 0x0A]
                         @ ''MIGQMHowDQYJKoZIhvcNAQEFBQAwDTELMAkGA1UEAxMCQ0EXDTI1MTAzMDAwMDAw'' @ [CHR 0x0A]
                         @ ''MFoXDTI3MTAzMDAwMDAwMFowPDASAgEFFw0yNTEwMzAwMDAwMDBaMBICAQcXDTI1'' @ [CHR 0x0A]
                         @ ''MTAzMDAwMDAwMFowEgIBCRcNMjUxMDMwMDAwMDAwWjANBgkqhkiG9w0BAQUFAAMD'' @ [CHR 0x0A]
                         @ ''AKvN'' @ [CHR 0x0A]
                         @ ''-----END X509 CRL-----'' @ [CHR 0x0A])"


definition pem_overrun :: "byte list" where
  "pem_overrun = bytes_of (''-----BEGIN X509 CRL-----'' @ replicate 4 (CHR 0x0A)
                             @ ''-----END X509 CRL-----'' @ replicate 30 CHR ''A'')"

section \<open>Properties\<close>

subsection \<open>Auxiliary facts\<close>

lemma b64_group_no_return: "b64_group i val str str_len pad_len \<noteq> Inr (Return r)"
proof (induction i val str str_len pad_len rule: b64_group.induct)
  case (1 i val str str_len pad_len)
  show ?case
  proof (cases "i < 4")
    case False
    then show ?thesis by (simp add: b64_group.simps)
  next
    case True
    show ?thesis
    proof (cases str)
      case Nil
      with True show ?thesis by (simp add: b64_group.simps)
    next
      case (Cons c cs)
      obtain i2 val2 pad2 where st: "b64_char c i val pad_len = (i2, val2, pad2)"
        by (metis prod_cases3)
      from "1.IH" [OF True Cons st [symmetric] refl]
      have "b64_group i2 val2 cs (str_len - 1) pad2 \<noteq> Inr (Return r)" by simp
      with True Cons st show ?thesis
        by (subst b64_group.simps) simp
    qed
  qed
qed

lemma b64_char_pad:
  "b64_char c i val pad_len = (i', val', pad_len') \<Longrightarrow>
     pad_len' = pad_len + (if c = ch CHR ''='' then 1 else 0)"
  by (auto simp: b64_char_def ch_def split: if_splits)

lemma b64_group_pads:
  "b64_group i val str str_len pad_len = Inr (Continue (val', str', str_len', pad_len')) \<Longrightarrow>
     str = take (length str - length str') str @ str' \<and>
     pad_len' = pad_len + of_nat (count_list (take (length str - length str') str) (ch CHR ''=''))"
proof (induction i val str str_len pad_len rule: b64_group.induct)
  case (1 i val str str_len pad_len)
  show ?case
  proof (cases "i < 4")
    case False
    with "1.prems" show ?thesis by (simp add: b64_group.simps)
  next
    case True
    show ?thesis
    proof (cases str)
      case Nil
      with True "1.prems" show ?thesis by (simp add: b64_group.simps)
    next
      case (Cons c cs)
      obtain i2 val2 pad2 where st: "b64_char c i val pad_len = (i2, val2, pad2)"
        by (metis prod_cases3)
      have run: "b64_group i2 val2 cs (str_len - 1) pad2 =
                   Inr (Continue (val', str', str_len', pad_len'))"
        using "1.prems"(1) True Cons st
        by (subst (asm) b64_group.simps) simp
      from "1.IH" [OF True Cons st [symmetric] refl _ run]
      have ih: "cs = take (length cs - length str') cs @ str'"
        "pad_len' = pad2 + of_nat (count_list (take (length cs - length str') cs) (ch CHR ''=''))"
        by simp_all
      have le: "length str' \<le> length cs"
        using ih(1) by (metis length_append le_add2)
      then have tk: "take (length str - length str') str =
                 c # take (length cs - length str') cs"
        using Cons by (simp add: Suc_diff_le)
      show ?thesis
        using ih tk Cons b64_char_pad [OF st]
        by (auto simp del: of_char_Char)
    qed
  qed
qed

lemma size_t_step:
  fixes x cap :: size_t
  assumes "x \<le> cap" and "unat cap < 2 ^ 64 - 1"
  shows "unat (x + 1) = unat x + 1" and "(cap < x + 1) = (unat cap < unat x + 1)"
proof -
  have "unat x \<le> unat cap" using assms(1) by (simp add: word_le_nat_alt)
  with assms(2) have "unat x + unat (1 :: size_t) < 2 ^ LENGTH(64)" by simp
  then have "unat (x + 1) = unat x + unat (1 :: size_t)" by (rule unat_add_lem [THEN iffD1])
  then show "unat (x + 1) = unat x + 1" by simp
  then show "(cap < x + 1) = (unat cap < unat x + 1)" by (simp add: word_less_nat_alt)
qed

lemma b64_emit_eq:
  assumes "unat len = b" and "len \<le> cap" and "unat cap \<le> length buf"
    and "unat cap < 2 ^ 64 - 1"
  shows "b64_emit val pl len buf b cap =
     (if unat cap < b + 1 then Inr (Return (- 1, buf))
      else if pl = 2 then
        Inr (Return (int_of_size_t (len + 1),
                     buf[b := push_bit 2 (val ! 0) + drop_bit 4 (val ! 1)]))
      else if unat cap < b + 2 then
        Inr (Return (- 1, buf[b := push_bit 2 (val ! 0) + drop_bit 4 (val ! 1)]))
      else if pl = 1 then
        Inr (Return (int_of_size_t (len + 2),
                     buf[b := push_bit 2 (val ! 0) + drop_bit 4 (val ! 1),
                         b + 1 := push_bit 4 (val ! 1) + drop_bit 2 (val ! 2)]))
      else if unat cap < b + 3 then
        Inr (Return (- 1, buf[b := push_bit 2 (val ! 0) + drop_bit 4 (val ! 1),
                              b + 1 := push_bit 4 (val ! 1) + drop_bit 2 (val ! 2)]))
      else Inr (Continue (len + 3,
                  buf[b := push_bit 2 (val ! 0) + drop_bit 4 (val ! 1),
                      b + 1 := push_bit 4 (val ! 1) + drop_bit 2 (val ! 2),
                      b + 2 := push_bit 6 (val ! 2) + val ! 3], b + 3)))"
proof -
  note s1 = size_t_step [OF assms(2,4)]
  show ?thesis
  proof (cases "unat cap < b + 1")
    case True
    with s1 assms(1) show ?thesis by (simp add: b64_emit_def)
  next
    case f1: False
    with s1 assms(1) have le1: "len + 1 \<le> cap" by (simp add: word_le_nat_alt)
    note s2 = size_t_step [OF le1 assms(4)]
    have u2: "unat (len + 2) = b + 2" "(cap < len + 2) = (unat cap < b + 2)"
      using s2 s1(1) assms(1) by (auto simp: add.assoc)
    show ?thesis
    proof (cases "pl = 2 \<or> unat cap < b + 2")
      case True
      with f1 s1 u2 assms(1,3) show ?thesis by (auto simp: b64_emit_def put_def)
    next
      case f2: False
      with u2 have le2: "len + 2 \<le> cap" by (simp add: word_le_nat_alt)
      note s3 = size_t_step [OF le2 assms(4)]
      have u3: "unat (len + 3) = b + 3" "(cap < len + 3) = (unat cap < b + 3)"
        using s3 u2(1) by (auto simp: add.assoc)
      from f1 f2 s1 u2 u3 assms(1,3) show ?thesis
        by (auto simp: b64_emit_def put_def)
    qed
  qed
qed

lemma b64_group_fault:
  "b64_group i val str str_len pad_len = Inl f \<Longrightarrow> f = Read_out_of_bounds"
proof (induction i val str str_len pad_len rule: b64_group.induct)
  case (1 i val str str_len pad_len)
  show ?case
  proof (cases "i < 4")
    case False
    with "1.prems" show ?thesis by (simp add: b64_group.simps)
  next
    case True
    show ?thesis
    proof (cases str)
      case Nil
      with True "1.prems" show ?thesis by (simp add: b64_group.simps)
    next
      case (Cons c cs)
      obtain i2 val2 pad2 where st: "b64_char c i val pad_len = (i2, val2, pad2)"
        by (metis prod_cases3)
      have "b64_group i2 val2 cs (str_len - 1) pad2 = Inl f"
        using "1.prems" True Cons st by (subst (asm) b64_group.simps) simp
      from "1.IH" [OF True Cons st [symmetric] refl _ this] show ?thesis by simp
    qed
  qed
qed

lemma unat_size_t_plus:
  fixes x :: size_t
  assumes "unat x + k \<le> unat (cap :: size_t)" and "k < 4"
  shows "unat (x + of_nat k) = unat x + k"
proof -
  have "unat cap < 2 ^ 64" using unsigned_less [of cap, where 'a = nat] by simp
  with assms have "unat x + k < 2 ^ 64" by simp
  moreover have "unat (of_nat k :: size_t) = k"
    using assms(2) by (simp add: unat_of_nat)
  ultimately have "unat x + unat (of_nat k :: size_t) < 2 ^ LENGTH(64)" by simp
  then have "unat (x + of_nat k) = unat x + unat (of_nat k :: size_t)"
    by (rule unat_add_lem [THEN iffD1])
  with \<open>unat (of_nat k :: size_t) = k\<close> show ?thesis by simp
qed

lemma b64_loop_safe:
  assumes "unat len = b" and "len \<le> cap" and "unat cap \<le> length buf"
    and "unat cap < 2 ^ 64 - 1"
  shows "case b64_loop str str_len pad_len len val buf b cap of
           Inl f \<Rightarrow> f = Read_out_of_bounds
         | Inr (r, buf') \<Rightarrow>
             length buf' = length buf \<and> drop (unat cap) buf' = drop (unat cap) buf \<and>
             (r = - 1 \<or> (\<exists>n. r = int_of_size_t n \<and> unat n \<le> unat cap))"
  using assms
proof (induction "length str" arbitrary: str str_len pad_len len val buf b rule: less_induct)
  case less
  note inv = less.prems
  have len_cap: "unat len \<le> unat cap" using inv(2) by (simp add: word_le_nat_alt)
  show ?case
  proof (cases "3 < str_len")
    case False
    with len_cap show ?thesis by (subst b64_loop.simps) auto
  next
    case True
    show ?thesis
    proof (cases "b64_group 0 val str str_len pad_len")
      case (Inl f)
      with True b64_group_fault [OF Inl] show ?thesis by (subst b64_loop.simps) simp
    next
      case (Inr st)
      then obtain val' str' str_len' pad_len' where
        g: "b64_group 0 val str str_len pad_len = Inr (Continue (val', str', str_len', pad_len'))"
        using b64_group_no_return by (cases st) auto
      from b64_group_consumes [OF g] have shorter: "length str' < length str" by simp
      note e = b64_emit_eq [OF inv, of val' pad_len']
      let ?v1 = "push_bit 2 (val' ! 0) + drop_bit 4 (val' ! 1)"
      let ?v2 = "push_bit 4 (val' ! 1) + drop_bit 2 (val' ! 2)"
      let ?v3 = "push_bit 6 (val' ! 2) + val' ! 3"
      consider (full) "unat cap < b + 1"
        | (one) "b + 1 \<le> unat cap" "pad_len' = 2"
        | (full1) "b + 1 \<le> unat cap" "pad_len' \<noteq> 2" "unat cap < b + 2"
        | (two) "b + 2 \<le> unat cap" "pad_len' \<noteq> 2" "pad_len' = 1"
        | (full2) "b + 2 \<le> unat cap" "pad_len' \<noteq> 2" "pad_len' \<noteq> 1" "unat cap < b + 3"
        | (three) "b + 3 \<le> unat cap" "pad_len' \<noteq> 2" "pad_len' \<noteq> 1"
        by linarith
      then show ?thesis
      proof cases
        case full
        with True g e show ?thesis by (subst b64_loop.simps) simp
      next
        case one
        have "unat (len + 1) = b + 1"
          using unat_size_t_plus [of len 1 cap] one(1) inv(1) by simp
        with one True g e show ?thesis
          by (subst b64_loop.simps) (auto intro!: exI [of _ "len + 1"])
      next
        case full1
        with True g e show ?thesis by (subst b64_loop.simps) simp
      next
        case two
        have "unat (len + 2) = b + 2"
          using unat_size_t_plus [of len 2 cap] two(1) inv(1) by simp
        with two True g e show ?thesis
          by (subst b64_loop.simps) (auto intro!: exI [of _ "len + 2"])
      next
        case full2
        with True g e show ?thesis by (subst b64_loop.simps) simp
      next
        case three
        let ?buf3 = "buf[b := ?v1, b + 1 := ?v2, b + 2 := ?v3]"
        have u3: "unat (len + 3) = b + 3"
          using unat_size_t_plus [of len 3 cap] three(1) inv(1) by simp
        then have le3: "len + 3 \<le> cap" using three(1) by (simp add: word_le_nat_alt)
        have step: "b64_loop str str_len pad_len len val buf b cap =
                      b64_loop str' str_len' pad_len' (len + 3) val' ?buf3 (b + 3) cap"
          using three True g e by (subst b64_loop.simps) simp
        have ih: "case b64_loop str' str_len' pad_len' (len + 3) val' ?buf3 (b + 3) cap of
                    Inl f \<Rightarrow> f = Read_out_of_bounds
                  | Inr (r, buf') \<Rightarrow>
                      length buf' = length ?buf3 \<and>
                      drop (unat cap) buf' = drop (unat cap) ?buf3 \<and>
                      (r = - 1 \<or> (\<exists>n. r = int_of_size_t n \<and> unat n \<le> unat cap))"
        proof -
          have "unat cap \<le> length ?buf3" using inv(3) by simp
          from less.hyps [OF shorter u3 le3 this inv(4)] show ?thesis .
        qed
        have "drop (unat cap) ?buf3 = drop (unat cap) buf"
          using three(1) by simp
        with ih step show ?thesis by (auto split: sum.splits)
      qed
    qed
  qed
qed

lemma int_of_size_t_small:
  assumes "unat n < 2 ^ 31"
  shows "int_of_size_t n = uint n"
proof -
  have "int (unat n) < int (2 ^ 31)"
    using assms by (rule of_nat_less_iff [THEN iffD2])
  then have u: "uint n < 2 ^ 31"
    by (simp only: uint_nat) simp
  have "uint (ucast n :: 32 word) = take_bit 32 (uint n)"
    by (simp add: unsigned_ucast_eq)
  also have "\<dots> = uint n"
    using u by (simp add: take_bit_int_eq_self)
  finally have c: "uint (ucast n :: 32 word) = uint n" .
  have "sint (ucast n :: 32 word) = signed_take_bit 31 (uint (ucast n :: 32 word))"
    by (simp add: sint_uint)
  also have "\<dots> = signed_take_bit 31 (uint n)"
    using c by simp
  also have "\<dots> = uint n"
  proof (rule signed_take_bit_int_eq_self)
    have "(0 :: int) \<le> uint n" by simp
    moreover have "- (2 ^ 31) \<le> (0 :: int)" by simp
    ultimately show "- (2 ^ 31) \<le> uint n" by (rule order_trans [rotated])
    show "uint n < 2 ^ 31" using u by simp
  qed
  finally show ?thesis by (simp add: int_of_size_t_def)
qed

lemma b64_loop_lockstep:
  assumes "unat len = b" and "len \<le> capA" and "capA \<le> capB"
    and "unat capA \<le> length bufA" and "unat capB \<le> length bufB"
    and "unat capB < 2 ^ 64 - 1"
    and "b64_loop str str_len pad_len len val bufB b capB = Inr (rB, bufB')"
  shows "(\<exists>bufA'. b64_loop str str_len pad_len len val bufA b capA = Inr (- 1, bufA')) \<or>
         (\<exists>bufA' n. b64_loop str str_len pad_len len val bufA b capA = Inr (rB, bufA') \<and>
                    rB = int_of_size_t n \<and> unat n \<le> unat capA)"
  using assms
proof (induction "length str" arbitrary: str str_len pad_len len val bufA bufB b
    rule: less_induct)
  case less
  note inv = less.prems
  have AB: "unat capA \<le> unat capB" using inv(3) by (simp add: word_le_nat_alt)
  have lenA: "unat len \<le> unat capA" using inv(2) by (simp add: word_le_nat_alt)
  have lenB: "len \<le> capB" using inv(2,3) by simp
  have smallA: "unat capA < 2 ^ 64 - 1" using AB inv(6) by simp
  show ?case
  proof (cases "3 < str_len")
    case False
    with inv(7) have "rB = int_of_size_t len" by (subst (asm) b64_loop.simps) simp
    with False lenA show ?thesis by (subst (1 2) b64_loop.simps) auto
  next
    case True
    show ?thesis
    proof (cases "b64_group 0 val str str_len pad_len")
      case (Inl f)
      with True inv(7) show ?thesis by (subst (asm) b64_loop.simps) simp
    next
      case (Inr st)
      then obtain val' str' str_len' pad_len' where
        g: "b64_group 0 val str str_len pad_len = Inr (Continue (val', str', str_len', pad_len'))"
        using b64_group_no_return by (cases st) auto
      from b64_group_consumes [OF g] have shorter: "length str' < length str" by simp
      note eA = b64_emit_eq [OF inv(1,2,4) smallA, of val' pad_len']
      note eB = b64_emit_eq [OF inv(1) lenB inv(5,6), of val' pad_len']
      let ?v1 = "push_bit 2 (val' ! 0) + drop_bit 4 (val' ! 1)"
      let ?v2 = "push_bit 4 (val' ! 1) + drop_bit 2 (val' ! 2)"
      let ?v3 = "push_bit 6 (val' ! 2) + val' ! 3"
      consider (full) "unat capA < b + 1"
        | (one) "b + 1 \<le> unat capA" "pad_len' = 2"
        | (full1) "b + 1 \<le> unat capA" "pad_len' \<noteq> 2" "unat capA < b + 2"
        | (two) "b + 2 \<le> unat capA" "pad_len' \<noteq> 2" "pad_len' = 1"
        | (full2) "b + 2 \<le> unat capA" "pad_len' \<noteq> 2" "pad_len' \<noteq> 1" "unat capA < b + 3"
        | (three) "b + 3 \<le> unat capA" "pad_len' \<noteq> 2" "pad_len' \<noteq> 1"
        by linarith
      then show ?thesis
      proof cases
        case full
        with True g eA show ?thesis by (subst b64_loop.simps) simp
      next
        case one
        have u: "unat (len + 1) = b + 1"
          using unat_size_t_plus [of len 1 capA] one(1) inv(1) by simp
        have "rB = int_of_size_t (len + 1)"
          using inv(7) one True g eB AB by (subst (asm) b64_loop.simps) simp
        with u one True g eA show ?thesis
          by (subst (1 2) b64_loop.simps) (auto intro!: exI [of _ "len + 1"])
      next
        case full1
        with True g eA show ?thesis by (subst b64_loop.simps) simp
      next
        case two
        have u: "unat (len + 2) = b + 2"
          using unat_size_t_plus [of len 2 capA] two(1) inv(1) by simp
        have "rB = int_of_size_t (len + 2)"
          using inv(7) two True g eB AB by (subst (asm) b64_loop.simps) simp
        with u two True g eA show ?thesis
          by (subst (1 2) b64_loop.simps) (auto intro!: exI [of _ "len + 2"])
      next
        case full2
        with True g eA show ?thesis by (subst b64_loop.simps) simp
      next
        case three
        let ?A3 = "bufA[b := ?v1, b + 1 := ?v2, b + 2 := ?v3]"
        let ?B3 = "bufB[b := ?v1, b + 1 := ?v2, b + 2 := ?v3]"
        have u3: "unat (len + 3) = b + 3"
          using unat_size_t_plus [of len 3 capA] three(1) inv(1) by simp
        then have le3: "len + 3 \<le> capA" using three(1) by (simp add: word_le_nat_alt)
        have stepA: "b64_loop str str_len pad_len len val bufA b capA =
                      b64_loop str' str_len' pad_len' (len + 3) val' ?A3 (b + 3) capA"
          using three True g eA by (subst b64_loop.simps) simp
        have stepB: "b64_loop str' str_len' pad_len' (len + 3) val' ?B3 (b + 3) capB =
                       Inr (rB, bufB')"
          using inv(7) three True g eB AB by (subst (asm) b64_loop.simps) simp
        have lA: "unat capA \<le> length ?A3" using inv(4) by simp
        have lB: "unat capB \<le> length ?B3" using inv(5) by simp
        from less.hyps [OF shorter u3 le3 inv(3) lA lB inv(6) stepB] stepA
        show ?thesis by simp
      qed
    qed
  qed
qed

lemma uint_le_of_unat_le:
  fixes a b :: size_t
  shows "unat a \<le> unat b \<Longrightarrow> uint a \<le> uint b"
  by (simp only: uint_nat of_nat_le_iff)

lemma strlen_fault: "strlen str = Inl f \<Longrightarrow> f = Read_out_of_bounds"
  by (induction str) (auto split: if_splits sum.splits)

lemma b64_group_skip:
  assumes "i < 4"
    and "\<not> (ch CHR ''A'' \<le> c \<and> c \<le> ch CHR ''Z'')"
    and "\<not> (ch CHR ''a'' \<le> c \<and> c \<le> ch CHR ''z'')"
    and "\<not> (ch CHR ''0'' \<le> c \<and> c \<le> ch CHR ''9'')"
    and "c \<noteq> ch CHR ''+''" and "c \<noteq> ch CHR ''/''" and "c \<noteq> ch CHR ''=''"
  shows "b64_group i val (c # rest) str_len pad_len = b64_group i val rest (str_len - 1) pad_len"
proof -
  have "b64_char c i val pad_len = (i, val, pad_len)"
    using assms(2-) unfolding b64_char_def by (simp only: if_False simp_thms)
  with assms(1) show ?thesis
    by (subst b64_group.simps) simp
qed




















lemma verify_crl_state_free:
  "fst (verify_crl env crl ctx s) = fst (verify_crl env crl ctx s')"
  by (simp add: verify_crl_def X509_STORE_get_by_subject_x509_def Let_def
      split: prod.splits option.splits)

lemma verify_crl_range: "fst (verify_crl env crl ctx s) \<in> {- 1, 0, 1}"
  by (simp add: verify_crl_def X509_STORE_get_by_subject_x509_def Let_def
      split: prod.splits option.splits)

lemma sk_find_from_none:
  "0 \<le> k \<Longrightarrow> (sk_find_from k sk n = - 1) = (n \<notin> rev_serialNumber ` set sk)"
  by (induction sk arbitrary: k) auto

lemma revocation_in_crl_range: "fst (revocation_in_crl env x509 ctx crl s) \<in> {- 1, 0, 1}"
  by (simp add: revocation_in_crl_def Let_def split: prod.splits)

lemma revocation_in_crl_cases:
  "revocation_in_crl env x509 ctx crl s = (rv, s') \<Longrightarrow> rv = - 1 \<or> rv = 0 \<or> rv = 1"
  using revocation_in_crl_range [of env x509 ctx crl s] by auto

lemma revocation_in_crl_valid:
  assumes "fst (verify_crl env crl ctx s0) = 1"
  shows "fst (revocation_in_crl env x509 ctx crl s) =
           (if serialNumber x509 \<in> rev_serialNumber ` set (revoked crl) then 0 else 1)"
proof -
  have "fst (verify_crl env crl ctx (DBG ''verifying crl'' s)) = 1"
    using assms verify_crl_state_free by metis
  then show ?thesis
    by (auto simp: revocation_in_crl_def sk_X509_REVOKED_find_def sk_find_from_none
        split: prod.splits)
qed

lemma check_NONE:
  "check_for_revocation env x509 ctx CRLP_NONE s =
     Inr (1, DBG ''no revocation-check performed'' (DBG1 ''crl policy: %d'' (Policy CRLP_NONE) s))"
  by (subst check_for_revocation.simps) (simp add: Let_def)

lemma check_OFFLINE:
  "check_for_revocation env x509 ctx CRLP_OFFLINE s =
     (case X509_STORE_get_by_subject_crl ctx (issuer_name x509)
             (DBG ''looking for an dedicated local crl''
                (DBG1 ''crl policy: %d'' (Policy CRLP_OFFLINE) s)) of
        ((rv, obj), s1) \<Rightarrow>
          if rv \<le> 0 then Inr (- 1, set_error (Msg ''no dedicated crl available'' []) s1)
          else Inr (revocation_in_crl env x509 ctx obj s1))"
  by (subst check_for_revocation.simps) (simp add: Let_def)

lemma check_ONLINE:
  "check_for_revocation env x509 ctx CRLP_ONLINE s =
     (case crl_dist_points x509 ctx (DBG ''extracting crl distribution points''
                (DBG1 ''crl policy: %d'' (Policy CRLP_ONLINE) s)) of
        (None, s1) \<Rightarrow> Inr (- 1, s1)
      | (Some dist_points, s1) \<Rightarrow>
          (case try_points env dist_points s1 of
             Inl f \<Rightarrow> Inl f
           | Inr (None, s2) \<Rightarrow>
               Inr (- 1, set_error
                      (Msg ''downloading the crl failed for all distribution points'' []) s2)
           | Inr (Some crl, s2) \<Rightarrow> Inr (revocation_in_crl env x509 ctx crl s2)))"
  by (subst check_for_revocation.simps) (simp add: Let_def)

lemma check_AUTO:
  "check_for_revocation env x509 ctx CRLP_AUTO s =
     (case check_for_revocation env x509 ctx CRLP_ONLINE
             (DBG1 ''crl policy: %d'' (Policy CRLP_AUTO) s) of
        Inl f \<Rightarrow> Inl f
      | Inr (rv, s1) \<Rightarrow>
          if rv < 0 then
            check_for_revocation env x509 ctx CRLP_OFFLINE
              (DBG1 ''check_for_revocation() failed: %s'' (get_error s1) s1)
          else Inr (rv, s1))"
  by (subst check_for_revocation.simps) (simp add: Let_def)

lemma check_ONLINE_range:
  "check_for_revocation env x509 ctx CRLP_ONLINE s = Inr (rv, s') \<Longrightarrow> rv \<in> {- 1, 0, 1}"
  by (auto simp: check_ONLINE split: prod.splits option.splits sum.splits
      dest: revocation_in_crl_cases)

lemma trace_set_error: "trace (set_error m s) = trace s"
  by (simp add: set_error_def)

lemma trace_emit: "trace (emit e s) = trace s @ [e]"
  by (simp add: emit_def)

lemma crl_rejected_append: "crl_rejected (t @ u) = (crl_rejected t \<or> crl_rejected u)"
  by (auto simp: crl_rejected_def)

lemma crl_rejected_Nil: "crl_rejected [] = False"
  by (simp add: crl_rejected_def)

lemma crl_rejected_Cons:
  "crl_rejected (e # t) =
     (e = Dbg (Msg ''crl is invalid'' []) \<or> e = Dbg (Msg ''crl is not yet valid'' []) \<or>
      e = Dbg (Msg ''crl has expired'' []) \<or> crl_rejected t)"
  by (auto simp: crl_rejected_def)

lemmas crl_rejected_snoc = crl_rejected_append crl_rejected_Cons crl_rejected_Nil

lemma verify_crl_rejected:
  "verify_crl env crl ctx s = (rv, s') \<Longrightarrow>
     crl_rejected (trace s') = (crl_rejected (trace s) \<or> rv = 0)"
  by (auto simp: verify_crl_def X509_STORE_get_by_subject_x509_def Let_def DBG_def
      trace_set_error trace_emit crl_rejected_snoc
      split: prod.splits option.splits if_splits)

lemma parse_der_rejected:
  "parse_der env p len s = (r, s') \<Longrightarrow> crl_rejected (trace s') = crl_rejected (trace s)"
  by (auto simp: parse_der_def Let_def trace_set_error trace_emit crl_rejected_snoc
      split: option.splits)

lemma download_crl_rejected:
  "download_crl env uri s = Inr (r, s') \<Longrightarrow> crl_rejected (trace s') = crl_rejected (trace s)"
  by (auto simp: download_crl_def Let_def DBG_def trace_set_error trace_emit crl_rejected_snoc
      split: prod.splits sum.splits if_splits dest!: parse_der_rejected)

lemma try_names_rejected:
  "try_names env names s = Inr (r, s') \<Longrightarrow> crl_rejected (trace s') = crl_rejected (trace s)"
proof (induction names arbitrary: s)
  case Nil
  then show ?case by simp
next
  case (Cons name names)
  show ?case
  proof (cases name)
    case None
    with Cons show ?thesis by simp
  next
    case (Some g)
    show ?thesis
    proof (cases g)
      case GEN_OTHER
      with Some Cons show ?thesis by simp
    next
      case (GEN_URI uri)
      show ?thesis
      proof (cases "download_crl env uri (DBG1 ''downloading crl from %s'' (Str uri) s)")
        case (Inl f)
        with Cons.prems Some GEN_URI show ?thesis by simp
      next
        case (Inr p)
        obtain c s1 where p: "p = (c, s1)" by (cases p)
        have s1: "crl_rejected (trace s1) = crl_rejected (trace s)"
          using download_crl_rejected [OF Inr [unfolded p]]
          by (simp add: DBG1_def trace_emit crl_rejected_snoc)
        show ?thesis
        proof (cases c)
          case None
          with Cons.prems Some GEN_URI Inr p
          have "try_names env names (DBG1 ''download_crl() failed: %s'' (get_error s1) s1) =
                  Inr (r, s')"
            by simp
          from Cons.IH [OF this] s1 show ?thesis
            by (simp add: DBG1_def trace_emit crl_rejected_snoc)
        next
          case (Some crl)
          with Cons.prems \<open>name = Some g\<close> GEN_URI Inr p s1 show ?thesis by simp
        qed
      qed
    qed
  qed
qed

lemma try_points_rejected:
  "try_points env points s = Inr (r, s') \<Longrightarrow> crl_rejected (trace s') = crl_rejected (trace s)"
proof (induction points arbitrary: s)
  case Nil
  then show ?case by simp
next
  case (Cons point points)
  then show ?case
    by (auto split: option.splits sum.splits prod.splits dest: try_names_rejected)
qed

lemma crl_dist_points_rejected:
  "crl_dist_points x509 ctx s = (r, s') \<Longrightarrow> crl_rejected (trace s') = crl_rejected (trace s)"
  by (auto simp: crl_dist_points_def X509_STORE_get_by_subject_x509_def trace_set_error
      trace_emit crl_rejected_snoc split: option.splits prod.splits if_splits)

lemma revocation_in_crl_rejected:
  "revocation_in_crl env x509 ctx crl s = (rv, s') \<Longrightarrow> \<not> crl_rejected (trace s) \<Longrightarrow>
     crl_rejected (trace s') \<Longrightarrow> rv = 0"
  by (auto simp: revocation_in_crl_def Let_def DBG_def trace_set_error trace_emit
      crl_rejected_snoc split: prod.splits if_splits dest!: verify_crl_rejected)

lemma check_invalid:
  "check_for_revocation env x509 ctx (CRLP_invalid n) s =
     Inr (- 1, set_error (Msg ''policy %d is not supported'' [Policy (CRLP_invalid n)])
                 (DBG1 ''crl policy: %d'' (Policy (CRLP_invalid n)) s))"
  by (subst check_for_revocation.simps) (simp add: Let_def)

lemma check_OFFLINE_rejected:
  assumes "check_for_revocation env x509 ctx CRLP_OFFLINE s = Inr (rv, s')"
    and "\<not> crl_rejected (trace s)" and "crl_rejected (trace s')"
  shows "rv = 0"
proof -
  let ?s1 = "emit (Call_X509_STORE_get_by_subject X509_LU_CRL (issuer_name x509))
               (DBG ''looking for an dedicated local crl''
                 (DBG1 ''crl policy: %d'' (Policy CRLP_OFFLINE) s))"
  have clean: "\<not> crl_rejected (trace ?s1)"
    using assms(2) by (simp add: DBG_def DBG1_def trace_emit crl_rejected_snoc)
  obtain r crl where l: "lookup_crl ctx (issuer_name x509) = (r, crl)"
    by (cases "lookup_crl ctx (issuer_name x509)")
  show ?thesis
  proof (cases "r \<le> 0")
    case True
    with assms(1) l have "s' = set_error (Msg ''no dedicated crl available'' []) ?s1"
      by (simp add: check_OFFLINE X509_STORE_get_by_subject_crl_def)
    with clean assms(3) show ?thesis by (simp add: trace_set_error)
  next
    case False
    with assms(1) l have "revocation_in_crl env x509 ctx crl ?s1 = (rv, s')"
      by (simp add: check_OFFLINE X509_STORE_get_by_subject_crl_def)
    from revocation_in_crl_rejected [OF this clean assms(3)] show ?thesis .
  qed
qed

lemma check_ONLINE_rejected:
  assumes "check_for_revocation env x509 ctx CRLP_ONLINE s = Inr (rv, s')"
    and "\<not> crl_rejected (trace s)" and "crl_rejected (trace s')"
  shows "rv = 0"
proof -
  let ?s0 = "DBG ''extracting crl distribution points''
               (DBG1 ''crl policy: %d'' (Policy CRLP_ONLINE) s)"
  have clean0: "\<not> crl_rejected (trace ?s0)"
    using assms(2) by (simp add: DBG_def DBG1_def trace_emit crl_rejected_snoc)
  obtain d s1 where d: "crl_dist_points x509 ctx ?s0 = (d, s1)"
    by (cases "crl_dist_points x509 ctx ?s0")
  from crl_dist_points_rejected [OF d] clean0 have clean1: "\<not> crl_rejected (trace s1)"
    by simp
  show ?thesis
  proof (cases d)
    case None
    with assms(1) d have "s' = s1" by (simp add: check_ONLINE)
    with clean1 assms(3) show ?thesis by simp
  next
    case (Some dps)
    show ?thesis
    proof (cases "try_points env dps s1")
      case (Inl f)
      with assms(1) d Some show ?thesis by (simp add: check_ONLINE)
    next
      case (Inr p)
      obtain c s2 where p: "p = (c, s2)" by (cases p)
      from try_points_rejected [OF Inr [unfolded p]] clean1
      have clean2: "\<not> crl_rejected (trace s2)" by simp
      show ?thesis
      proof (cases c)
        case None
        with assms(1) d Some Inr p
        have "s' = set_error
                 (Msg ''downloading the crl failed for all distribution points'' []) s2"
          by (simp add: check_ONLINE)
        with clean2 assms(3) show ?thesis by (simp add: trace_set_error)
      next
        case (Some crl)
        with assms(1) d \<open>d = Some dps\<close> Inr p
        have "revocation_in_crl env x509 ctx crl s2 = (rv, s')"
          by (simp add: check_ONLINE)
        from revocation_in_crl_rejected [OF this clean2 assms(3)] show ?thesis .
      qed
    qed
  qed
qed

lemma verify_crl_lookups:
  "verify_crl env crl ctx s = (rv, s') \<Longrightarrow>
     filter local_crl_lookup (trace s') = filter local_crl_lookup (trace s)"
  by (auto simp: verify_crl_def X509_STORE_get_by_subject_x509_def Let_def DBG_def
      trace_set_error trace_emit split: prod.splits option.splits if_splits)

lemma parse_der_lookups:
  "parse_der env p len s = (r, s') \<Longrightarrow>
     filter local_crl_lookup (trace s') = filter local_crl_lookup (trace s)"
  by (auto simp: parse_der_def Let_def trace_set_error trace_emit split: option.splits)

lemma download_crl_lookups:
  "download_crl env uri s = Inr (r, s') \<Longrightarrow>
     filter local_crl_lookup (trace s') = filter local_crl_lookup (trace s)"
  by (auto simp: download_crl_def Let_def DBG_def trace_set_error trace_emit
      split: prod.splits sum.splits if_splits dest!: parse_der_lookups)

lemma try_names_lookups:
  "try_names env names s = Inr (r, s') \<Longrightarrow>
     filter local_crl_lookup (trace s') = filter local_crl_lookup (trace s)"
proof (induction names arbitrary: s)
  case Nil
  then show ?case by simp
next
  case (Cons name names)
  show ?case
  proof (cases name)
    case None
    with Cons show ?thesis by simp
  next
    case (Some g)
    show ?thesis
    proof (cases g)
      case GEN_OTHER
      with Some Cons show ?thesis by simp
    next
      case (GEN_URI uri)
      show ?thesis
      proof (cases "download_crl env uri (DBG1 ''downloading crl from %s'' (Str uri) s)")
        case (Inl f)
        with Cons.prems Some GEN_URI show ?thesis by simp
      next
        case (Inr p)
        obtain c s1 where p: "p = (c, s1)" by (cases p)
        have s1: "filter local_crl_lookup (trace s1) = filter local_crl_lookup (trace s)"
          using download_crl_lookups [OF Inr [unfolded p]]
          by (simp add: DBG1_def trace_emit)
        show ?thesis
        proof (cases c)
          case None
          with Cons.prems Some GEN_URI Inr p
          have "try_names env names (DBG1 ''download_crl() failed: %s'' (get_error s1) s1) =
                  Inr (r, s')"
            by simp
          from Cons.IH [OF this] s1 show ?thesis
            by (simp add: DBG1_def trace_emit)
        next
          case (Some crl)
          with Cons.prems \<open>name = Some g\<close> GEN_URI Inr p s1 show ?thesis by simp
        qed
      qed
    qed
  qed
qed

lemma try_points_lookups:
  "try_points env points s = Inr (r, s') \<Longrightarrow>
     filter local_crl_lookup (trace s') = filter local_crl_lookup (trace s)"
proof (induction points arbitrary: s)
  case Nil
  then show ?case by simp
next
  case (Cons point points)
  then show ?case
    by (auto split: option.splits sum.splits prod.splits dest: try_names_lookups)
qed

lemma crl_dist_points_lookups:
  "crl_dist_points x509 ctx s = (r, s') \<Longrightarrow>
     filter local_crl_lookup (trace s') = filter local_crl_lookup (trace s)"
  by (auto simp: crl_dist_points_def X509_STORE_get_by_subject_x509_def trace_set_error
      trace_emit split: option.splits prod.splits if_splits)

lemma revocation_in_crl_lookups:
  "revocation_in_crl env x509 ctx crl s = (rv, s') \<Longrightarrow>
     filter local_crl_lookup (trace s') = filter local_crl_lookup (trace s)"
  by (auto simp: revocation_in_crl_def Let_def DBG_def trace_set_error trace_emit
      split: prod.splits if_splits dest!: verify_crl_lookups)

lemma check_ONLINE_lookups:
  assumes "check_for_revocation env x509 ctx CRLP_ONLINE s = Inr (rv, s')"
  shows "filter local_crl_lookup (trace s') = filter local_crl_lookup (trace s)"
proof -
  let ?s0 = "DBG ''extracting crl distribution points''
               (DBG1 ''crl policy: %d'' (Policy CRLP_ONLINE) s)"
  have t0: "filter local_crl_lookup (trace ?s0) = filter local_crl_lookup (trace s)"
    by (simp add: DBG_def DBG1_def trace_emit)
  obtain d s1 where d: "crl_dist_points x509 ctx ?s0 = (d, s1)"
    by (cases "crl_dist_points x509 ctx ?s0")
  from crl_dist_points_lookups [OF d] t0
  have t1: "filter local_crl_lookup (trace s1) = filter local_crl_lookup (trace s)"
    by simp
  show ?thesis
  proof (cases d)
    case None
    with assms d have "s' = s1" by (simp add: check_ONLINE)
    with t1 show ?thesis by simp
  next
    case (Some dps)
    show ?thesis
    proof (cases "try_points env dps s1")
      case (Inl f)
      with assms d Some show ?thesis by (simp add: check_ONLINE)
    next
      case (Inr p)
      obtain c s2 where p: "p = (c, s2)" by (cases p)
      from try_points_lookups [OF Inr [unfolded p]] t1
      have t2: "filter local_crl_lookup (trace s2) = filter local_crl_lookup (trace s)"
        by simp
      show ?thesis
      proof (cases c)
        case None
        with assms d Some Inr p
        have "s' = set_error
                 (Msg ''downloading the crl failed for all distribution points'' []) s2"
          by (simp add: check_ONLINE)
        with t2 show ?thesis by (simp add: trace_set_error)
      next
        case (Some crl)
        with assms d \<open>d = Some dps\<close> Inr p
        have "revocation_in_crl env x509 ctx crl s2 = (rv, s')"
          by (simp add: check_ONLINE)
        from revocation_in_crl_lookups [OF this] t2 show ?thesis by simp
      qed
    qed
  qed
qed

lemma check_OFFLINE_lookups:
  assumes "check_for_revocation env x509 ctx CRLP_OFFLINE s = Inr (rv, s')"
  shows "filter local_crl_lookup (trace s') =
           filter local_crl_lookup (trace s) @
             [Call_X509_STORE_get_by_subject X509_LU_CRL (issuer_name x509)]"
proof -
  let ?s1 = "emit (Call_X509_STORE_get_by_subject X509_LU_CRL (issuer_name x509))
               (DBG ''looking for an dedicated local crl''
                 (DBG1 ''crl policy: %d'' (Policy CRLP_OFFLINE) s))"
  have t1: "filter local_crl_lookup (trace ?s1) =
              filter local_crl_lookup (trace s) @
                [Call_X509_STORE_get_by_subject X509_LU_CRL (issuer_name x509)]"
    by (simp add: DBG_def DBG1_def trace_emit)
  obtain r crl where l: "lookup_crl ctx (issuer_name x509) = (r, crl)"
    by (cases "lookup_crl ctx (issuer_name x509)")
  show ?thesis
  proof (cases "r \<le> 0")
    case True
    with assms l have "s' = set_error (Msg ''no dedicated crl available'' []) ?s1"
      by (simp add: check_OFFLINE X509_STORE_get_by_subject_crl_def)
    with t1 show ?thesis by (simp add: trace_set_error)
  next
    case False
    with assms l have "revocation_in_crl env x509 ctx crl ?s1 = (rv, s')"
      by (simp add: check_OFFLINE X509_STORE_get_by_subject_crl_def)
    from revocation_in_crl_lookups [OF this] t1 show ?thesis by simp
  qed
qed

subsection \<open>The base64 decoder\<close>

text \<open>
  Claim C6, as the code has it. For a destination of at least \<open>buf_len\<close> bytes:
  the decoder never writes outside the destination; when it returns, the bytes of the
  destination from offset \<open>buf_len\<close> on are as they were, and for a capacity below
  \<open>2^31\<close> the result is \<open>-1\<close> or a count of at most \<open>buf_len\<close>; whenever the decoded
  output would exceed the capacity, that is whenever the same string decoded with a
  larger capacity gives a count above \<open>buf_len\<close>, the result is \<open>-1\<close>. A character that
  is no letter, no digit and none of \<open>+\<close>, \<open>/\<close> and \<open>=\<close> is not rejected: the loop
  over a group passes over it, storing nothing.
\<close>

theorem base64_capacity:
  assumes "unat buf_len \<le> length buf" and "unat buf_len < 2 ^ 64 - 1"
  shows "base64_to_bin str buf buf_len \<noteq> Inl Write_out_of_bounds \<and>
     (\<forall>r buf'. base64_to_bin str buf buf_len = Inr (r, buf') \<longrightarrow>
        length buf' = length buf \<and> drop (unat buf_len) buf' = drop (unat buf_len) buf \<and>
        (unat buf_len < 2 ^ 31 \<longrightarrow> r = - 1 \<or> 0 \<le> r \<and> r \<le> uint buf_len)) \<and>
     (\<forall>big big_len r big'.
        unat buf_len < 2 ^ 31 \<and> buf_len \<le> big_len \<and> unat big_len \<le> length big \<and>
        unat big_len < 2 ^ 64 - 1 \<and> base64_to_bin str big big_len = Inr (r, big') \<and>
        uint buf_len < r \<longrightarrow>
        (\<exists>buf'. base64_to_bin str buf buf_len = Inr (- 1, buf'))) \<and>
     (\<forall>c i val rest str_len pad_len.
        i < 4 \<and> \<not> (ch CHR ''A'' \<le> c \<and> c \<le> ch CHR ''Z'') \<and>
        \<not> (ch CHR ''a'' \<le> c \<and> c \<le> ch CHR ''z'') \<and>
        \<not> (ch CHR ''0'' \<le> c \<and> c \<le> ch CHR ''9'') \<and>
        c \<noteq> ch CHR ''+'' \<and> c \<noteq> ch CHR ''/'' \<and> c \<noteq> ch CHR ''='' \<longrightarrow>
        b64_group i val (c # rest) str_len pad_len =
          b64_group i val rest (str_len - 1) pad_len)"
proof (intro conjI allI impI)
  have z: "unat (0 :: size_t) = 0" "(0 :: size_t) \<le> buf_len" by simp_all
  note safe = b64_loop_safe [OF z assms]
  show "base64_to_bin str buf buf_len \<noteq> Inl Write_out_of_bounds"
  proof (cases "strlen str")
    case (Inl f)
    with strlen_fault [OF Inl] show ?thesis by (simp add: base64_to_bin_def)
  next
    case (Inr n)
    with safe [of str "of_nat n" 0 "[0, 0, 0, 0]"] show ?thesis
      by (auto simp: base64_to_bin_def split: sum.splits)
  qed
  fix r buf'
  assume run: "base64_to_bin str buf buf_len = Inr (r, buf')"
  then obtain n where n: "strlen str = Inr n"
    and loop: "b64_loop str (of_nat n) 0 0 [0, 0, 0, 0] buf 0 buf_len = Inr (r, buf')"
    by (auto simp: base64_to_bin_def split: sum.splits)
  from safe [of str "of_nat n" 0 "[0, 0, 0, 0]"] loop
  have res: "length buf' = length buf" "drop (unat buf_len) buf' = drop (unat buf_len) buf"
    "r = - 1 \<or> (\<exists>m. r = int_of_size_t m \<and> unat m \<le> unat buf_len)"
    by simp_all
  show "length buf' = length buf" by (rule res(1))
  show "drop (unat buf_len) buf' = drop (unat buf_len) buf" by (rule res(2))
  show "r = - 1 \<or> 0 \<le> r \<and> r \<le> uint buf_len" if small: "unat buf_len < 2 ^ 31"
  proof (cases "r = - 1")
    case True
    then show ?thesis by simp
  next
    case False
    with res(3) obtain m where m: "r = int_of_size_t m" "unat m \<le> unat buf_len" by auto
    with small have "unat m < 2 ^ 31" by simp
    from int_of_size_t_small [OF this] m have "r = uint m" by simp
    moreover have "uint m \<le> uint buf_len"
      using m(2) by (rule uint_le_of_unat_le)
    ultimately show ?thesis by simp
  qed
next
  fix big :: "byte list" and big_len :: size_t and r big'
  assume h: "unat buf_len < 2 ^ 31 \<and> buf_len \<le> big_len \<and> unat big_len \<le> length big \<and>
        unat big_len < 2 ^ 64 - 1 \<and> base64_to_bin str big big_len = Inr (r, big') \<and>
        uint buf_len < r"
  then obtain n where n: "strlen str = Inr n"
    and loop: "b64_loop str (of_nat n) 0 0 [0, 0, 0, 0] big 0 big_len = Inr (r, big')"
    by (auto simp: base64_to_bin_def split: sum.splits)
  have z: "unat (0 :: size_t) = 0" "(0 :: size_t) \<le> buf_len" by simp_all
  from h have h': "buf_len \<le> big_len" "unat big_len \<le> length big" "unat big_len < 2 ^ 64 - 1"
    by simp_all
  from b64_loop_lockstep [OF z h'(1) assms(1) h'(2,3) loop]
  consider (fail) bufA' where
      "b64_loop str (of_nat n) 0 0 [0, 0, 0, 0] buf 0 buf_len = Inr (- 1, bufA')"
    | (same) bufA' m where
      "b64_loop str (of_nat n) 0 0 [0, 0, 0, 0] buf 0 buf_len = Inr (r, bufA')"
      "r = int_of_size_t m" "unat m \<le> unat buf_len"
    by blast
  then show "\<exists>buf'. base64_to_bin str buf buf_len = Inr (- 1, buf')"
  proof cases
    case fail
    with n show ?thesis by (simp add: base64_to_bin_def)
  next
    case same
    from same(3) h have "unat m < 2 ^ 31" by simp
    from int_of_size_t_small [OF this] same(2) have "r = uint m" by simp
    moreover have "uint m \<le> uint buf_len"
      using same(3) by (rule uint_le_of_unat_le)
    ultimately have False using h by simp
    then show ?thesis ..
  qed
next
  fix c :: byte and i :: nat and val rest :: "byte list" and str_len pad_len :: size_t
  assume "i < 4 \<and> \<not> (ch CHR ''A'' \<le> c \<and> c \<le> ch CHR ''Z'') \<and>
        \<not> (ch CHR ''a'' \<le> c \<and> c \<le> ch CHR ''z'') \<and>
        \<not> (ch CHR ''0'' \<le> c \<and> c \<le> ch CHR ''9'') \<and>
        c \<noteq> ch CHR ''+'' \<and> c \<noteq> ch CHR ''/'' \<and> c \<noteq> ch CHR ''=''"
  then show "b64_group i val (c # rest) str_len pad_len =
          b64_group i val rest (str_len - 1) pad_len"
    using b64_group_skip by blast
qed

theorem base64_capacity_witness:
  "base64_to_bin (bytes_of ''QUJDQUJD'' @ [0]) (replicate 6 0) 6 = Inr (6, [65, 66, 67, 65, 66, 67]) \<and>
   (\<exists>buf'. base64_to_bin (bytes_of ''QUJDQUJD'' @ [0]) (replicate 6 0) 5 = Inr (- 1, buf') \<and>
      length buf' = 6 \<and> drop 5 buf' = [0]) \<and>
   b64_group 0 [0, 0, 0, 0] (10 # bytes_of ''QUJD'') 5 0 =
     b64_group 0 [0, 0, 0, 0] (bytes_of ''QUJD'') 4 0"
proof -
  let ?str = "bytes_of ''QUJDQUJD'' @ [0]"
  have big: "base64_to_bin ?str (replicate 6 0) 6 = Inr (6, [65, 66, 67, 65, 66, 67])"
    by code_simp
  have a: "unat (5 :: size_t) \<le> length (replicate 6 (0 :: byte))" "unat (5 :: size_t) < 2 ^ 64 - 1"
    by simp_all
  note t = base64_capacity [OF a, of ?str]
  from t big have "\<exists>buf'. base64_to_bin ?str (replicate 6 0) 5 = Inr (- 1, buf')"
    by (elim conjE allE [of _ "replicate 6 (0 :: byte)"] allE [of _ "6 :: size_t"]
          allE [of _ "6 :: int"] allE [of _ "[65, 66, 67, 65, 66, 67] :: byte list"]) simp
  then obtain buf' where r: "base64_to_bin ?str (replicate 6 0) 5 = Inr (- 1, buf')" ..
  with t have "length buf' = 6" "drop 5 buf' = [0]" by auto
  moreover from t have "b64_group 0 [0, 0, 0, 0] (10 # bytes_of ''QUJD'') (5 :: size_t) 0 =
     b64_group 0 [0, 0, 0, 0] (bytes_of ''QUJD'') (5 - 1) 0"
    by (simp add: ch_def)
  ultimately show ?thesis using big r by simp
qed

text \<open>
  The claim C6 as stated fails: a string with a line feed, a character outside the
  alphabet, before the group \<open>QUJD\<close> decodes to the three bytes \<open>ABC\<close>.
\<close>

theorem base64_capacity_counterexample:
  "base64_to_bin ([10] @ bytes_of ''QUJD'' @ [0]) [0, 0, 0] 3 = Inr (3, [65, 66, 67])"
  by code_simp

text \<open>
  Claim C10, as the code has it. \<open>pad_len\<close> is never reset: after a group it is its
  value before the group plus the number of \<open>=\<close> among the characters the group
  consumed. With room for three more bytes, the loop ends after a group that leaves
  \<open>pad_len\<close> at 2, with one byte of the group written, and after a group that leaves it
  at 1, with two bytes written; what follows the group in the input is not read. A group
  that leaves \<open>pad_len\<close> at any other value, such as the first padded group when it has
  three or four \<open>=\<close>, writes three bytes and the loop goes on.
\<close>

theorem padding_stops_decoding:
  assumes "3 < str_len"
    and "b64_group 0 val str str_len pad_len = Inr (Continue (val', str', str_len', pad_len'))"
    and "unat len + 3 \<le> unat buf_len" and "unat len = b" and "unat buf_len \<le> length buf"
  shows "pad_len' =
           pad_len + of_nat (count_list (take (length str - length str') str) (ch CHR ''='')) \<and>
         (pad_len' = 2 \<longrightarrow>
            b64_loop str str_len pad_len len val buf b buf_len =
              Inr (int_of_size_t (len + 1),
                   buf[b := push_bit 2 (val' ! 0) + drop_bit 4 (val' ! 1)])) \<and>
         (pad_len' = 1 \<longrightarrow>
            b64_loop str str_len pad_len len val buf b buf_len =
              Inr (int_of_size_t (len + 2),
                   buf[b := push_bit 2 (val' ! 0) + drop_bit 4 (val' ! 1),
                       b + 1 := push_bit 4 (val' ! 1) + drop_bit 2 (val' ! 2)])) \<and>
         (pad_len' \<noteq> 1 \<and> pad_len' \<noteq> 2 \<longrightarrow>
            b64_loop str str_len pad_len len val buf b buf_len =
              b64_loop str' str_len' pad_len' (len + 3) val'
                (buf[b := push_bit 2 (val' ! 0) + drop_bit 4 (val' ! 1),
                     b + 1 := push_bit 4 (val' ! 1) + drop_bit 2 (val' ! 2),
                     b + 2 := push_bit 6 (val' ! 2) + val' ! 3])
                (b + 3) buf_len)"
proof -
  have c1: "\<not> buf_len < len + 1" and c2: "\<not> buf_len < len + 2" and c3: "\<not> buf_len < len + 3"
    using assms(3) by unat_arith+
  have bb: "b + 2 < length buf"
    using assms(3-5) by simp
  show ?thesis
    using b64_group_pads [OF assms(2)] assms(1,2) c1 c2 c3 bb
    by (subst (1 2 3) b64_loop.simps) (simp add: b64_emit_def put_def)
qed

theorem padding_stops_decoding_witness:
  "b64_loop (bytes_of ''QQ==QUJD'' @ [0]) 8 0 0 [0, 0, 0, 0] [0, 0, 0, 0, 0, 0] 0 6 =
     Inr (1, [65, 0, 0, 0, 0, 0]) \<and>
   b64_loop (bytes_of ''QUI=QUJD'' @ [0]) 8 0 0 [0, 0, 0, 0] [0, 0, 0, 0, 0, 0] 0 6 =
     Inr (2, [65, 66, 0, 0, 0, 0]) \<and>
   b64_loop (bytes_of ''A===QUJD'' @ [0]) 8 0 0 [0, 0, 0, 0] [0, 0, 0, 0, 0, 0] 0 6 =
     b64_loop (bytes_of ''QUJD'' @ [0]) 4 3 3 [0, 0, 0, 0] [0, 0, 0, 0, 0, 0] 3 6"
proof -
  have g2: "b64_group 0 [0, 0, 0, 0] (bytes_of ''QQ==QUJD'' @ [0]) 8 0 =
              Inr (Continue ([16, 16, 0, 0], bytes_of ''QUJD'' @ [0], 4, 2))"
    by code_simp
  have g1: "b64_group 0 [0, 0, 0, 0] (bytes_of ''QUI=QUJD'' @ [0]) 8 0 =
              Inr (Continue ([16, 20, 8, 0], bytes_of ''QUJD'' @ [0], 4, 1))"
    by code_simp
  have g3: "b64_group 0 [0, 0, 0, 0] (bytes_of ''A===QUJD'' @ [0]) 8 0 =
              Inr (Continue ([0, 0, 0, 0], bytes_of ''QUJD'' @ [0], 4, 3))"
    by code_simp
  have c: "(3 :: size_t) < 8" "unat (0 :: size_t) + 3 \<le> unat (6 :: size_t)"
    "unat (0 :: size_t) = 0" "unat (6 :: size_t) \<le> length [0, 0, 0, 0, 0, 0 :: byte]"
    by simp_all
  from padding_stops_decoding [OF c(1) g2 c(2,3,4)]
    padding_stops_decoding [OF c(1) g1 c(2,3,4)]
    padding_stops_decoding [OF c(1) g3 c(2,3,4)]
  show ?thesis
    by (simp add: int_of_size_t_def)
qed

text \<open>
  The claim C10 as stated fails for a first padded group with more than two \<open>=\<close>:
  \<open>A===\<close> gives three bytes and the group \<open>QUJD\<close> after it is decoded as well.
\<close>

theorem padding_stops_decoding_counterexample:
  "base64_to_bin (bytes_of ''A===QUJD'' @ [0]) (replicate 6 0) 6 = Inr (6, [0, 0, 0, 65, 66, 67])"
  by code_simp

subsection \<open>The CRL fetcher\<close>




text \<open>
  Claim C9 does not hold of the code. The buffer is in PEM framing and the decoder,
  run on the text between the markers with the capacity \<open>j - i + 1 = 29\<close>, returns
  \<open>-1\<close>; line 105 stores that in the \<open>size_t\<close> \<open>der_len\<close>, the test \<open>der_len <= 0\<close>
  of line 107 is false, and \<open>d2i_X509_CRL\<close> is called with the length \<open>-1\<close>.
\<close>

theorem decoder_failure_not_caught:
  "pem_framing pem_overrun = Some (0, 28) \<and>
   base64_to_bin (drop 24 (pem_overrun[28 := 0])) (replicate 29 0) 29 =
     Inr (- 1, [16, 208, 215, 231, 79, 66, 68, 176, 0, 0, 0, 0, 0, 0, 0, 0, 0, 0, 0,
                0, 0, 0, 0, 0, 0, 0, 0, 0, 0]) \<and>
   download_crl (world pem_overrun (store_ctx ca_crl 1)) ''http://ca/crl'' start =
     Inr (None,
          \<lparr>error = Msg ''d2i_X509_CRL() failed'' [],
           trace = [Call_get_from_uri ''http://ca/crl'', Dbg (Msg ''crl is base64 encoded'' []),
                    Call_d2i_X509_CRL (- 1)]\<rparr>)"
  by code_simp

subsection \<open>The CRL verifier\<close>

text \<open>
  Claim C8. \<open>verify_crl\<close> has three results, \<open>1\<close> (valid), \<open>0\<close> (invalid or expired)
  and \<open>-1\<close> (processing error), and its checks run in order, the first that fails
  deciding: an issuer that the store does not resolve gives \<open>-1\<close>, with no call after
  the lookup; then a missing public key or a fault of the signature check gives \<open>-1\<close>
  and a signature that does not validate gives \<open>0\<close>, whatever the time fields are; then a
  last-update field that \<open>X509_cmp_current_time\<close> cannot read (result 0) gives \<open>-1\<close> and
  one in the future (positive result) gives \<open>0\<close>; then a next-update field that cannot be
  read gives \<open>-1\<close> and one in the past (negative result) gives \<open>0\<close>; otherwise the
  result is \<open>1\<close>.
\<close>

theorem verify_crl_ternary:
  "fst (verify_crl env crl ctx s) \<in> {- 1, 0, 1} \<and>
   (fst (lookup_x509 ctx (crl_issuer crl)) \<le> 0 \<longrightarrow>
      fst (verify_crl env crl ctx s) = - 1 \<and>
      trace (snd (verify_crl env crl ctx s)) =
        trace s @ [Call_X509_STORE_get_by_subject X509_LU_X509 (crl_issuer crl)]) \<and>
   (0 < fst (lookup_x509 ctx (crl_issuer crl)) \<longrightarrow>
      (pubkey (snd (lookup_x509 ctx (crl_issuer crl))) = None \<longrightarrow>
         fst (verify_crl env crl ctx s) = - 1) \<and>
      (\<forall>pkey. pubkey (snd (lookup_x509 ctx (crl_issuer crl))) = Some pkey \<longrightarrow>
         (X509_CRL_verify env crl pkey < 0 \<longrightarrow> fst (verify_crl env crl ctx s) = - 1) \<and>
         (X509_CRL_verify env crl pkey = 0 \<longrightarrow> fst (verify_crl env crl ctx s) = 0) \<and>
         (0 < X509_CRL_verify env crl pkey \<longrightarrow>
            (X509_cmp_current_time env (lastUpdate crl) = 0 \<longrightarrow>
               fst (verify_crl env crl ctx s) = - 1) \<and>
            (0 < X509_cmp_current_time env (lastUpdate crl) \<longrightarrow>
               fst (verify_crl env crl ctx s) = 0) \<and>
            (X509_cmp_current_time env (lastUpdate crl) < 0 \<longrightarrow>
               (X509_cmp_current_time env (nextUpdate crl) = 0 \<longrightarrow>
                  fst (verify_crl env crl ctx s) = - 1) \<and>
               (X509_cmp_current_time env (nextUpdate crl) < 0 \<longrightarrow>
                  fst (verify_crl env crl ctx s) = 0) \<and>
               (0 < X509_cmp_current_time env (nextUpdate crl) \<longrightarrow>
                  fst (verify_crl env crl ctx s) = 1)))))"
  by (auto simp: verify_crl_def X509_STORE_get_by_subject_x509_def Let_def emit_def set_error_def
      split: prod.splits option.splits)

theorem verify_crl_ternary_witness:
  "fst (verify_crl (world [] (store_ctx ca_crl 1)) ca_crl (store_ctx ca_crl 1) start) = 1 \<and>
   fst (verify_crl (world [] (store_ctx ca_crl 1)) (ca_crl\<lparr>nextUpdate := ''last year''\<rparr>)
          (store_ctx ca_crl 1) start) = 0 \<and>
   fst (verify_crl (world [] (store_ctx ca_crl 1)) (ca_crl\<lparr>nextUpdate := ''31 February''\<rparr>)
          (store_ctx ca_crl 1) start) = - 1 \<and>
   fst (verify_crl (world [] (store_ctx ca_crl 1)) (ca_crl\<lparr>lastUpdate := ''next year''\<rparr>)
          (store_ctx ca_crl 1) start) = 0 \<and>
   fst (verify_crl (world [] (store_ctx ca_crl 1)) (ca_crl\<lparr>lastUpdate := ''31 February''\<rparr>)
          (store_ctx ca_crl 1) start) = - 1 \<and>
   fst (verify_crl (world [] (store_ctx ca_crl 1)) (ca_crl\<lparr>crl_issuer := ''Nobody''\<rparr>)
          (store_ctx ca_crl 1) start) = - 1 \<and>
   fst (verify_crl ((world [] (store_ctx ca_crl 1))\<lparr>X509_CRL_verify := \<lambda>crl k. 0\<rparr>) ca_crl
          (store_ctx ca_crl 1) start) = 0 \<and>
   fst (verify_crl ((world [] (store_ctx ca_crl 1))\<lparr>X509_CRL_verify := \<lambda>crl k. - 1\<rparr>) ca_crl
          (store_ctx ca_crl 1) start) = - 1 \<and>
   fst (verify_crl (world [] (store_ctx ca_crl 1)) ca_crl
          ((store_ctx ca_crl 1)\<lparr>lookup_x509 := \<lambda>n. (1, ca_cert\<lparr>pubkey := None\<rparr>)\<rparr>) start) = - 1"
  using
    verify_crl_ternary [of "world [] (store_ctx ca_crl 1)" ca_crl "store_ctx ca_crl 1" start]
    verify_crl_ternary [of "world [] (store_ctx ca_crl 1)" "ca_crl\<lparr>nextUpdate := ''last year''\<rparr>"
      "store_ctx ca_crl 1" start]
    verify_crl_ternary [of "world [] (store_ctx ca_crl 1)" "ca_crl\<lparr>nextUpdate := ''31 February''\<rparr>"
      "store_ctx ca_crl 1" start]
    verify_crl_ternary [of "world [] (store_ctx ca_crl 1)" "ca_crl\<lparr>lastUpdate := ''next year''\<rparr>"
      "store_ctx ca_crl 1" start]
    verify_crl_ternary [of "world [] (store_ctx ca_crl 1)" "ca_crl\<lparr>lastUpdate := ''31 February''\<rparr>"
      "store_ctx ca_crl 1" start]
    verify_crl_ternary [of "world [] (store_ctx ca_crl 1)" "ca_crl\<lparr>crl_issuer := ''Nobody''\<rparr>"
      "store_ctx ca_crl 1" start]
    verify_crl_ternary [of "(world [] (store_ctx ca_crl 1))\<lparr>X509_CRL_verify := \<lambda>crl k. 0\<rparr>"
      ca_crl "store_ctx ca_crl 1" start]
    verify_crl_ternary [of "(world [] (store_ctx ca_crl 1))\<lparr>X509_CRL_verify := \<lambda>crl k. - 1\<rparr>"
      ca_crl "store_ctx ca_crl 1" start]
    verify_crl_ternary [of "world [] (store_ctx ca_crl 1)" ca_crl
      "(store_ctx ca_crl 1)\<lparr>lookup_x509 := \<lambda>n. (1, ca_cert\<lparr>pubkey := None\<rparr>)\<rparr>" start]
  by (simp add: world_def store_ctx_def ca_crl_def ca_cert_def)

subsection \<open>The revocation policy engine\<close>

text \<open>
  Claim C4. Under policy AUTO the check is the ONLINE check, run first; when that
  returns \<open>-1\<close> the result is that of the OFFLINE check, run after it; when it returns
  \<open>0\<close> or \<open>1\<close> that verdict is returned with the state the ONLINE check left. The
  ONLINE check is the download from the distribution points and the check of the CRL
  downloaded; it returns nothing but \<open>-1\<close>, \<open>0\<close> and \<open>1\<close> and never looks a CRL
  up in the store. The OFFLINE check is the lookup of the CRL in the store and the
  check of the CRL found; it looks a CRL up once. So a run under AUTO holds the lookup
  of the OFFLINE check when the ONLINE check returned \<open>-1\<close>, and no lookup of a CRL in
  the store when the ONLINE check returned a verdict.

  The runs below are in a store whose CRL revokes serial number 8 alone, while the CRL
  downloaded revokes 5, 7 and 9. Under AUTO the certificates 8 and 7 get the verdicts of
  the CRL downloaded, \<open>1\<close> and \<open>0\<close>, where the OFFLINE check gives \<open>0\<close> and \<open>1\<close>;
  with a fetcher that fails, the ONLINE check returns \<open>-1\<close> and AUTO returns the
  \<open>0\<close> of the OFFLINE check for certificate 8.
\<close>

theorem auto_policy:
  "check_for_revocation env x509 ctx CRLP_AUTO s =
     (case check_for_revocation env x509 ctx CRLP_ONLINE
             (DBG1 ''crl policy: %d'' (Policy CRLP_AUTO) s) of
        Inl f \<Rightarrow> Inl f
      | Inr (rv, s1) \<Rightarrow>
          if rv = - 1 then
            check_for_revocation env x509 ctx CRLP_OFFLINE
              (DBG1 ''check_for_revocation() failed: %s'' (get_error s1) s1)
          else Inr (rv, s1)) \<and>
   check_for_revocation env x509 ctx CRLP_ONLINE s =
     (case crl_dist_points x509 ctx (DBG ''extracting crl distribution points''
                (DBG1 ''crl policy: %d'' (Policy CRLP_ONLINE) s)) of
        (None, s1) \<Rightarrow> Inr (- 1, s1)
      | (Some dist_points, s1) \<Rightarrow>
          (case try_points env dist_points s1 of
             Inl f \<Rightarrow> Inl f
           | Inr (None, s2) \<Rightarrow>
               Inr (- 1, set_error
                      (Msg ''downloading the crl failed for all distribution points'' []) s2)
           | Inr (Some crl, s2) \<Rightarrow> Inr (revocation_in_crl env x509 ctx crl s2))) \<and>
   check_for_revocation env x509 ctx CRLP_OFFLINE s =
     (case X509_STORE_get_by_subject_crl ctx (issuer_name x509)
             (DBG ''looking for an dedicated local crl''
                (DBG1 ''crl policy: %d'' (Policy CRLP_OFFLINE) s)) of
        ((rv, obj), s1) \<Rightarrow>
          if rv \<le> 0 then Inr (- 1, set_error (Msg ''no dedicated crl available'' []) s1)
          else Inr (revocation_in_crl env x509 ctx obj s1)) \<and>
   (case check_for_revocation env x509 ctx CRLP_ONLINE s of
      Inl f \<Rightarrow> True
    | Inr (rv, s1) \<Rightarrow>
        (rv = - 1 \<or> rv = 0 \<or> rv = 1) \<and>
        filter local_crl_lookup (trace s1) = filter local_crl_lookup (trace s)) \<and>
   (case check_for_revocation env x509 ctx CRLP_OFFLINE s of
      Inl f \<Rightarrow> True
    | Inr (rv, s1) \<Rightarrow>
        filter local_crl_lookup (trace s1) =
          filter local_crl_lookup (trace s) @
            [Call_X509_STORE_get_by_subject X509_LU_CRL (issuer_name x509)]) \<and>
   (case check_for_revocation env x509 ctx CRLP_AUTO s of
      Inl f \<Rightarrow> True
    | Inr (rv, s') \<Rightarrow>
        filter local_crl_lookup (trace s') =
          filter local_crl_lookup (trace s) @
            (if map_sum id fst (check_for_revocation env x509 ctx CRLP_ONLINE
                                  (DBG1 ''crl policy: %d'' (Policy CRLP_AUTO) s)) = Inr (- 1)
             then [Call_X509_STORE_get_by_subject X509_LU_CRL (issuer_name x509)]
             else []))"
proof -
  let ?s0 = "DBG1 ''crl policy: %d'' (Policy CRLP_AUTO) s"
  have t0: "filter local_crl_lookup (trace ?s0) = filter local_crl_lookup (trace s)"
    by (simp add: DBG1_def trace_emit)
  have online: "case check_for_revocation env x509 ctx CRLP_ONLINE s of
      Inl f \<Rightarrow> True
    | Inr (rv, s1) \<Rightarrow>
        (rv = - 1 \<or> rv = 0 \<or> rv = 1) \<and>
        filter local_crl_lookup (trace s1) = filter local_crl_lookup (trace s)" for s
    using check_ONLINE_range [of env x509 ctx s] check_ONLINE_lookups [of env x509 ctx s]
    by (auto split: sum.splits)
  have offline: "case check_for_revocation env x509 ctx CRLP_OFFLINE s of
      Inl f \<Rightarrow> True
    | Inr (rv, s1) \<Rightarrow>
        filter local_crl_lookup (trace s1) =
          filter local_crl_lookup (trace s) @
            [Call_X509_STORE_get_by_subject X509_LU_CRL (issuer_name x509)]" for s
    using check_OFFLINE_lookups [of env x509 ctx s] by (auto split: sum.splits)
  have auto_eq: "check_for_revocation env x509 ctx CRLP_AUTO s =
     (case check_for_revocation env x509 ctx CRLP_ONLINE ?s0 of
        Inl f \<Rightarrow> Inl f
      | Inr (rv, s1) \<Rightarrow>
          if rv = - 1 then
            check_for_revocation env x509 ctx CRLP_OFFLINE
              (DBG1 ''check_for_revocation() failed: %s'' (get_error s1) s1)
          else Inr (rv, s1))"
    using online [of ?s0] by (auto simp: check_AUTO split: sum.splits)
  have auto_trace: "case check_for_revocation env x509 ctx CRLP_AUTO s of
      Inl f \<Rightarrow> True
    | Inr (rv, s') \<Rightarrow>
        filter local_crl_lookup (trace s') =
          filter local_crl_lookup (trace s) @
            (if map_sum id fst (check_for_revocation env x509 ctx CRLP_ONLINE ?s0) = Inr (- 1)
             then [Call_X509_STORE_get_by_subject X509_LU_CRL (issuer_name x509)]
             else [])"
  proof (cases "check_for_revocation env x509 ctx CRLP_ONLINE ?s0")
    case (Inl f)
    then show ?thesis by (simp add: auto_eq)
  next
    case (Inr p)
    obtain r1 s1 where p: "p = (r1, s1)" by (cases p)
    from online [of ?s0] Inr p t0
    have t1: "filter local_crl_lookup (trace s1) = filter local_crl_lookup (trace s)"
      by simp
    show ?thesis
    proof (cases "r1 = - 1")
      case False
      with Inr p t1 show ?thesis by (simp add: auto_eq)
    next
      case True
      let ?s2 = "DBG1 ''check_for_revocation() failed: %s'' (get_error s1) s1"
      have t2: "filter local_crl_lookup (trace ?s2) = filter local_crl_lookup (trace s)"
        using t1 by (simp add: DBG1_def trace_emit)
      from offline [of ?s2] t2 True Inr p show ?thesis
        by (auto simp: auto_eq split: sum.splits)
    qed
  qed
  from auto_eq check_ONLINE [of env x509 ctx s] check_OFFLINE [of env x509 ctx s]
    online [of s] offline [of s] auto_trace
  show ?thesis by (intro conjI)
qed

theorem auto_policy_witness:
  "check_for_revocation (world pem_crl (store_ctx local_crl 1)) (leaf_with_uri 8)
     (store_ctx local_crl 1) CRLP_AUTO start =
     Inr (1, \<lparr>error = Str [],
              trace = [Dbg (Msg ''crl policy: %d'' [Policy CRLP_AUTO]),
                       Dbg (Msg ''crl policy: %d'' [Policy CRLP_ONLINE]),
                       Dbg (Msg ''extracting crl distribution points'' []),
                       Dbg (Msg ''downloading crl from %s'' [Str ''http://ca/crl'']),
                       Call_get_from_uri ''http://ca/crl'',
                       Dbg (Msg ''crl is base64 encoded'' []),
                       Call_d2i_X509_CRL 147,
                       Dbg (Msg ''verifying crl'' []),
                       Call_X509_STORE_get_by_subject X509_LU_X509 ''CA'',
                       Call_X509_CRL_verify]\<rparr>) \<and>
   map_sum id fst
     (check_for_revocation (world pem_crl (store_ctx local_crl 1)) (leaf_with_uri 8)
        (store_ctx local_crl 1) CRLP_OFFLINE start) = Inr 0 \<and>
   map_sum id fst
     (check_for_revocation (world pem_crl (store_ctx local_crl 1)) (leaf_with_uri 7)
        (store_ctx local_crl 1) CRLP_AUTO start) = Inr 0 \<and>
   map_sum id fst
     (check_for_revocation (world pem_crl (store_ctx local_crl 1)) (leaf_with_uri 7)
        (store_ctx local_crl 1) CRLP_OFFLINE start) = Inr 1 \<and>
   check_for_revocation ((world pem_crl (store_ctx local_crl 1))\<lparr>get_from_uri := \<lambda>uri. (1, [])\<rparr>)
     (leaf_with_uri 8) (store_ctx local_crl 1) CRLP_AUTO start =
     Inr (0, \<lparr>error = Msg ''downloading the crl failed for all distribution points'' [],
              trace = [Dbg (Msg ''crl policy: %d'' [Policy CRLP_AUTO]),
                       Dbg (Msg ''crl policy: %d'' [Policy CRLP_ONLINE]),
                       Dbg (Msg ''extracting crl distribution points'' []),
                       Dbg (Msg ''downloading crl from %s'' [Str ''http://ca/crl'']),
                       Call_get_from_uri ''http://ca/crl'',
                       Dbg (Msg ''download_crl() failed: %s''
                              [Msg ''get_from_uri() failed: %s'' [Str []]]),
                       Dbg (Msg ''check_for_revocation() failed: %s''
                              [Msg ''downloading the crl failed for all distribution points''
                                 []]),
                       Dbg (Msg ''crl policy: %d'' [Policy CRLP_OFFLINE]),
                       Dbg (Msg ''looking for an dedicated local crl'' []),
                       Call_X509_STORE_get_by_subject X509_LU_CRL ''CA'',
                       Dbg (Msg ''verifying crl'' []),
                       Call_X509_STORE_get_by_subject X509_LU_X509 ''CA'',
                       Call_X509_CRL_verify]\<rparr>) \<and>
   map_sum id fst
     (check_for_revocation ((world pem_crl (store_ctx local_crl 1))\<lparr>get_from_uri := \<lambda>uri. (1, [])\<rparr>)
        (leaf_with_uri 8) (store_ctx local_crl 1) CRLP_ONLINE start) = Inr (- 1)"
proof -
  let ?ctx = "store_ctx local_crl 1"
  let ?env = "world pem_crl ?ctx"
  let ?envF = "?env\<lparr>get_from_uri := \<lambda>uri. (1, [])\<rparr>"
  let ?s0 = "DBG1 ''crl policy: %d'' (Policy CRLP_AUTO) start"
  let ?A = "\<lparr>error = Str [],
              trace = [Dbg (Msg ''crl policy: %d'' [Policy CRLP_AUTO]),
                       Dbg (Msg ''crl policy: %d'' [Policy CRLP_ONLINE]),
                       Dbg (Msg ''extracting crl distribution points'' []),
                       Dbg (Msg ''downloading crl from %s'' [Str ''http://ca/crl'']),
                       Call_get_from_uri ''http://ca/crl'',
                       Dbg (Msg ''crl is base64 encoded'' []),
                       Call_d2i_X509_CRL 147,
                       Dbg (Msg ''verifying crl'' []),
                       Call_X509_STORE_get_by_subject X509_LU_X509 ''CA'',
                       Call_X509_CRL_verify]\<rparr>"
  let ?F1 = "\<lparr>error = Msg ''downloading the crl failed for all distribution points'' [],
              trace = [Dbg (Msg ''crl policy: %d'' [Policy CRLP_AUTO]),
                       Dbg (Msg ''crl policy: %d'' [Policy CRLP_ONLINE]),
                       Dbg (Msg ''extracting crl distribution points'' []),
                       Dbg (Msg ''downloading crl from %s'' [Str ''http://ca/crl'']),
                       Call_get_from_uri ''http://ca/crl'',
                       Dbg (Msg ''download_crl() failed: %s''
                              [Msg ''get_from_uri() failed: %s'' [Str []]])]\<rparr>"
  let ?F2 = "\<lparr>error = Msg ''downloading the crl failed for all distribution points'' [],
              trace = [Dbg (Msg ''crl policy: %d'' [Policy CRLP_AUTO]),
                       Dbg (Msg ''crl policy: %d'' [Policy CRLP_ONLINE]),
                       Dbg (Msg ''extracting crl distribution points'' []),
                       Dbg (Msg ''downloading crl from %s'' [Str ''http://ca/crl'']),
                       Call_get_from_uri ''http://ca/crl'',
                       Dbg (Msg ''download_crl() failed: %s''
                              [Msg ''get_from_uri() failed: %s'' [Str []]]),
                       Dbg (Msg ''check_for_revocation() failed: %s''
                              [Msg ''downloading the crl failed for all distribution points''
                                 []]),
                       Dbg (Msg ''crl policy: %d'' [Policy CRLP_OFFLINE]),
                       Dbg (Msg ''looking for an dedicated local crl'' []),
                       Call_X509_STORE_get_by_subject X509_LU_CRL ''CA'',
                       Dbg (Msg ''verifying crl'' []),
                       Call_X509_STORE_get_by_subject X509_LU_X509 ''CA'',
                       Call_X509_CRL_verify]\<rparr>"
  have on: "check_for_revocation ?env (leaf_with_uri 8) ?ctx CRLP_ONLINE ?s0 = Inr (1, ?A)"
    by code_simp
  have off: "map_sum id fst (check_for_revocation ?env (leaf_with_uri 8) ?ctx CRLP_OFFLINE start)
               = Inr 0"
    by code_simp
  have on7: "check_for_revocation ?env (leaf_with_uri 7) ?ctx CRLP_ONLINE ?s0 = Inr (0, ?A)"
    by code_simp
  have off7: "map_sum id fst (check_for_revocation ?env (leaf_with_uri 7) ?ctx CRLP_OFFLINE start)
               = Inr 1"
    by code_simp
  have onF: "check_for_revocation ?envF (leaf_with_uri 8) ?ctx CRLP_ONLINE ?s0 = Inr (- 1, ?F1)"
    by code_simp
  have offF: "check_for_revocation ?envF (leaf_with_uri 8) ?ctx CRLP_OFFLINE
                (DBG1 ''check_for_revocation() failed: %s'' (get_error ?F1) ?F1) = Inr (0, ?F2)"
    by code_simp
  have onF': "map_sum id fst (check_for_revocation ?envF (leaf_with_uri 8) ?ctx CRLP_ONLINE start)
                = Inr (- 1)"
    by code_simp
  from auto_policy [of ?env "leaf_with_uri 8" ?ctx start, THEN conjunct1]
  have a: "check_for_revocation ?env (leaf_with_uri 8) ?ctx CRLP_AUTO start = Inr (1, ?A)"
    by (simp add: on)
  from auto_policy [of ?env "leaf_with_uri 7" ?ctx start, THEN conjunct1]
  have a7: "map_sum id fst (check_for_revocation ?env (leaf_with_uri 7) ?ctx CRLP_AUTO start)
              = Inr 0"
    by (simp add: on7)
  from auto_policy [of ?envF "leaf_with_uri 8" ?ctx start, THEN conjunct1]
  have b: "check_for_revocation ?envF (leaf_with_uri 8) ?ctx CRLP_AUTO start = Inr (0, ?F2)"
    by (simp add: onF offF)
  from a off a7 off7 b onF' show ?thesis by (intro conjI)
qed

text \<open>
  Claim C5. For a CRL that \<open>verify_crl\<close> judges valid, the engine returns \<open>0\<close> (revoked)
  when an entry of the revoked list has the serial number of the certificate, and \<open>1\<close>
  (not revoked) when none has: for the CRL in hand at line 266, for the CRL that the
  OFFLINE policy finds in the store, and for the CRL that the ONLINE policy downloads.
\<close>

theorem serial_number_scan:
  "fst (verify_crl env crl ctx s0) = 1 \<Longrightarrow>
     fst (revocation_in_crl env x509 ctx crl s) =
       (if serialNumber x509 \<in> rev_serialNumber ` set (revoked crl) then 0 else 1) \<and>
     (lookup_crl ctx (issuer_name x509) = (rv, crl) \<and> 0 < rv \<longrightarrow>
        map_sum id fst (check_for_revocation env x509 ctx CRLP_OFFLINE s) =
          Inr (if serialNumber x509 \<in> rev_serialNumber ` set (revoked crl) then 0 else 1)) \<and>
     (crl_dist_points x509 ctx (DBG ''extracting crl distribution points''
          (DBG1 ''crl policy: %d'' (Policy CRLP_ONLINE) s)) = (Some dps, s1) \<and>
      try_points env dps s1 = Inr (Some crl, s2) \<longrightarrow>
        map_sum id fst (check_for_revocation env x509 ctx CRLP_ONLINE s) =
          Inr (if serialNumber x509 \<in> rev_serialNumber ` set (revoked crl) then 0 else 1))"
  using revocation_in_crl_valid [of env crl ctx s0 x509]
  by (simp add: check_OFFLINE check_ONLINE X509_STORE_get_by_subject_crl_def)


theorem serial_number_scan_witness:
  "fst (verify_crl (world pem_crl (store_ctx ca_crl 1)) ca_crl (store_ctx ca_crl 1) start) = 1 \<and>
   map_sum id fst (check_for_revocation (world pem_crl (store_ctx ca_crl 1)) (leaf_cert 7)
      (store_ctx ca_crl 1) CRLP_OFFLINE start) = Inr 0 \<and>
   map_sum id fst (check_for_revocation (world pem_crl (store_ctx ca_crl 1)) (leaf_cert 8)
      (store_ctx ca_crl 1) CRLP_OFFLINE start) = Inr 1 \<and>
   map_sum id fst (check_for_revocation (world pem_crl (store_ctx ca_crl 1)) (leaf_with_uri 9)
      (store_ctx ca_crl 1) CRLP_ONLINE start) = Inr 0 \<and>
   map_sum id fst (check_for_revocation (world pem_crl (store_ctx ca_crl 1)) (leaf_with_uri 6)
      (store_ctx ca_crl 1) CRLP_ONLINE start) = Inr 1"
proof -
  let ?ctx = "store_ctx ca_crl 1"
  let ?env = "world pem_crl ?ctx"
  let ?s1 = "DBG ''extracting crl distribution points''
               (DBG1 ''crl policy: %d'' (Policy CRLP_ONLINE) start)"
  let ?dps = "[DIST_POINT None,
               DIST_POINT (Some (DIST_POINT_NAME (Some [Some GEN_OTHER,
                                                        Some (GEN_URI ''http://ca/crl'')])))]"
  let ?s2 = "\<lparr>error = Str [],
             trace = [Dbg (Msg ''crl policy: %d'' [Policy CRLP_ONLINE]),
                      Dbg (Msg ''extracting crl distribution points'' []),
                      Dbg (Msg ''downloading crl from %s'' [Str ''http://ca/crl'']),
                      Call_get_from_uri ''http://ca/crl'',
                      Dbg (Msg ''crl is base64 encoded'' []),
                      Call_d2i_X509_CRL 147]\<rparr>"
  have v: "fst (verify_crl ?env ca_crl ?ctx start) = 1"
    by (simp add: verify_crl_def X509_STORE_get_by_subject_x509_def world_def store_ctx_def
        ca_crl_def ca_cert_def)
  have d: "crl_dist_points (leaf_with_uri n) ?ctx ?s1 = (Some ?dps, ?s1)" for n
    by (simp add: crl_dist_points_def leaf_with_uri_def leaf_cert_def)
  have t: "try_points ?env ?dps ?s1 = Inr (Some ca_crl, ?s2)"
    by code_simp
  show ?thesis
    using v
      serial_number_scan [OF v, of "leaf_cert 7" start 1]
      serial_number_scan [OF v, of "leaf_cert 8" start 1]
      serial_number_scan [OF v, where ?x509.0 = "leaf_with_uri 9" and s = start and dps = ?dps
        and ?s1.0 = ?s1 and ?s2.0 = ?s2]
      serial_number_scan [OF v, where ?x509.0 = "leaf_with_uri 6" and s = start and dps = ?dps
        and ?s1.0 = ?s1 and ?s2.0 = ?s2]
      d t
    by (simp add: store_ctx_def leaf_cert_def leaf_with_uri_def ca_crl_def)
qed

text \<open>
  Claim C1, as the code has it. In a run of the revocation check under any policy that
  starts from a trace without a rejection, if the verifier has judged a CRL invalid,
  not yet valid or expired (it returned 0, which is when it leaves one of its three
  debug lines), the check returns \<open>0\<close>, the value of the revoked verdict: not \<open>-1\<close> and
  not \<open>1\<close>. Under AUTO this holds for the CRL of the ONLINE attempt, after which the
  OFFLINE check is not tried, and for the CRL of the OFFLINE check after an ONLINE
  attempt that failed.
\<close>

theorem rejected_crl_gives_zero:
  assumes "\<not> crl_rejected (trace s)"
    and "check_for_revocation env x509 ctx policy s = Inr (rv, s')"
    and "crl_rejected (trace s')"
  shows "rv = 0 \<and>
         (\<forall>crl s1. \<not> crl_rejected (trace s1) \<longrightarrow>
            crl_rejected (trace (snd (verify_crl env crl ctx s1))) =
              (fst (verify_crl env crl ctx s1) = 0))"
proof
  show "\<forall>crl s1. \<not> crl_rejected (trace s1) \<longrightarrow>
            crl_rejected (trace (snd (verify_crl env crl ctx s1))) =
              (fst (verify_crl env crl ctx s1) = 0)"
    using verify_crl_rejected by (metis prod.collapse)
  show "rv = 0"
  proof (cases policy)
    case CRLP_NONE
    with assms show ?thesis
      by (auto simp: check_NONE DBG_def DBG1_def trace_emit crl_rejected_snoc)
  next
    case CRLP_ONLINE
    with assms check_ONLINE_rejected show ?thesis by blast
  next
    case CRLP_OFFLINE
    with assms check_OFFLINE_rejected show ?thesis by blast
  next
    case (CRLP_invalid n)
    with assms show ?thesis
      by (auto simp: check_invalid DBG1_def trace_emit trace_set_error crl_rejected_snoc)
  next
    case CRLP_AUTO
    let ?s0 = "DBG1 ''crl policy: %d'' (Policy CRLP_AUTO) s"
    have clean0: "\<not> crl_rejected (trace ?s0)"
      using assms(1) by (simp add: DBG1_def trace_emit crl_rejected_snoc)
    show ?thesis
    proof (cases "check_for_revocation env x509 ctx CRLP_ONLINE ?s0")
      case (Inl f)
      with assms(2) CRLP_AUTO show ?thesis by (simp add: check_AUTO)
    next
      case (Inr p)
      obtain r1 s1 where p: "p = (r1, s1)" by (cases p)
      show ?thesis
      proof (cases "r1 < 0")
        case False
        with assms(2) CRLP_AUTO Inr p have "rv = r1" "s' = s1"
          by (simp_all add: check_AUTO)
        with check_ONLINE_rejected [OF Inr [unfolded p] clean0] assms(3) show ?thesis by simp
      next
        case True
        with check_ONLINE_rejected [OF Inr [unfolded p] clean0]
        have "\<not> crl_rejected (trace s1)" by auto
        then have clean1: "\<not> crl_rejected
            (trace (DBG1 ''check_for_revocation() failed: %s'' (get_error s1) s1))"
          by (simp add: DBG1_def trace_emit crl_rejected_snoc)
        from True assms(2) CRLP_AUTO Inr p
        have "check_for_revocation env x509 ctx CRLP_OFFLINE
                (DBG1 ''check_for_revocation() failed: %s'' (get_error s1) s1) = Inr (rv, s')"
          by (simp add: check_AUTO)
        from check_OFFLINE_rejected [OF this clean1 assms(3)] show ?thesis .
      qed
    qed
  qed
qed

theorem rejected_crl_gives_zero_witness:
  "\<not> crl_rejected (trace start) \<and>
   (\<exists>rv s'. check_for_revocation (world [] (store_ctx (ca_crl\<lparr>nextUpdate := ''last year''\<rparr>) 1))
        (leaf_cert 8) (store_ctx (ca_crl\<lparr>nextUpdate := ''last year''\<rparr>) 1) CRLP_AUTO start
        = Inr (rv, s') \<and> crl_rejected (trace s') \<and> rv = 0)"
proof -
  let ?ctx = "store_ctx (ca_crl\<lparr>nextUpdate := ''last year''\<rparr>) 1"
  let ?s' = "\<lparr>error = Msg (''neither the user nor the ca certificate''
                            @ '' does contain a crl distribution point'') [],
             trace = [Dbg (Msg ''crl policy: %d'' [Policy CRLP_AUTO]),
                      Dbg (Msg ''crl policy: %d'' [Policy CRLP_ONLINE]),
                      Dbg (Msg ''extracting crl distribution points'' []),
                      Call_X509_STORE_get_by_subject X509_LU_X509 ''CA'',
                      Dbg (Msg ''check_for_revocation() failed: %s''
                             [Msg (''neither the user nor the ca certificate''
                                @ '' does contain a crl distribution point'') []]),
                      Dbg (Msg ''crl policy: %d'' [Policy CRLP_OFFLINE]),
                      Dbg (Msg ''looking for an dedicated local crl'' []),
                      Call_X509_STORE_get_by_subject X509_LU_CRL ''CA'',
                      Dbg (Msg ''verifying crl'' []),
                      Call_X509_STORE_get_by_subject X509_LU_X509 ''CA'',
                      Call_X509_CRL_verify,
                      Dbg (Msg ''crl has expired'' [])]\<rparr>"
  have clean: "\<not> crl_rejected (trace start)"
    by (simp add: start_def crl_rejected_def)
  have run: "check_for_revocation (world [] ?ctx) (leaf_cert 8) ?ctx CRLP_AUTO start
               = Inr (0, ?s')"
    by (simp add: check_AUTO check_ONLINE check_OFFLINE crl_dist_points_def
        X509_STORE_get_by_subject_crl_def revocation_in_crl_def
        verify_crl_def X509_STORE_get_by_subject_x509_def world_def store_ctx_def ca_crl_def
        ca_cert_def leaf_cert_def start_def DBG_def DBG1_def emit_def set_error_def get_error_def)
  have rej: "crl_rejected (trace ?s')"
    by (simp add: crl_rejected_def)
  from rejected_crl_gives_zero [OF clean run rej] clean run rej show ?thesis
    by blast
qed

text \<open>
  The claim C1 as stated fails: the CRL of the store has its next update in the past,
  \<open>verify_crl\<close> returns 0 for it, and the OFFLINE check returns \<open>0\<close>, not \<open>-1\<close>, for a
  certificate whose serial number is not in the CRL.
\<close>

theorem rejected_crl_counterexample:
  "fst (verify_crl (world [] (store_ctx (ca_crl\<lparr>nextUpdate := ''last year''\<rparr>) 1))
          (ca_crl\<lparr>nextUpdate := ''last year''\<rparr>)
          (store_ctx (ca_crl\<lparr>nextUpdate := ''last year''\<rparr>) 1) start) = 0 \<and>
   map_sum id fst
     (check_for_revocation (world [] (store_ctx (ca_crl\<lparr>nextUpdate := ''last year''\<rparr>) 1))
        (leaf_cert 8) (store_ctx (ca_crl\<lparr>nextUpdate := ''last year''\<rparr>) 1) CRLP_OFFLINE start)
     = Inr 0"
  by (simp add: check_OFFLINE X509_STORE_get_by_subject_crl_def revocation_in_crl_def
      verify_crl_def X509_STORE_get_by_subject_x509_def world_def store_ctx_def ca_crl_def
      ca_cert_def leaf_cert_def)

subsection \<open>The chain validator\<close>

text \<open>
  Claim C2 does not hold of the code. When the store and the context are set up and
  \<open>X509_verify_cert\<close> does not return 1, line 343 frees the context and line 345 reads
  \<open>ctx->error\<close> through the freed pointer, for the diagnostic string of the message:
  under every policy the run ends in this read of freed memory, before the return of
  line 346 and before line 351, where \<open>check_for_revocation\<close> is called. So it ends
  there also for a certificate and a fetcher with which \<open>check_for_revocation\<close>, had
  it been called, would have ended in a read outside the fetched buffer.
\<close>

theorem invalid_path_reads_freed_context:
  assumes "X509_STORE_new env" and "X509_STORE_add_lookup env"
    and "X509_LOOKUP_add_dir env ca_dir X509_FILETYPE_PEM = 1"
    and "X509_LOOKUP_add_dir env ca_dir X509_FILETYPE_ASN1 = 1"
    and "X509_LOOKUP_add_dir env crl_dir X509_FILETYPE_PEM = 1"
    and "X509_LOOKUP_add_dir env crl_dir X509_FILETYPE_ASN1 = 1"
    and "X509_STORE_CTX_new env ca_dir crl_dir x509 = Some ctx"
    and "verify_cert ctx \<noteq> 1"
  shows "verify_certificate env x509 ca_dir crl_dir policy s = Inl Use_after_free"
  using assms
  by (simp add: verify_certificate_def Let_def X509_STORE_CTX_free_def read_ctx_error_def)

theorem invalid_path_reads_freed_context_witness:
  "verify_cert (store_ctx ca_crl 0) = 0 \<and>
   verify_certificate (world [] (store_ctx ca_crl 0)) (leaf_cert 7) ''/etc/ca'' ''/etc/crl''
     CRLP_NONE start = Inl Use_after_free \<and>
   verify_certificate (world [] (store_ctx ca_crl 0)) (leaf_cert 7) ''/etc/ca'' ''/etc/crl''
     CRLP_OFFLINE start = Inl Use_after_free \<and>
   verify_certificate (world [] (store_ctx ca_crl 0)) (leaf_cert 7) ''/etc/ca'' ''/etc/crl''
     CRLP_AUTO start = Inl Use_after_free \<and>
   check_for_revocation (world (bytes_of ''gone'') (store_ctx ca_crl 0)) (leaf_with_uri 7)
     (store_ctx ca_crl 0) CRLP_ONLINE start = Inl Read_out_of_bounds \<and>
   verify_certificate (world (bytes_of ''gone'') (store_ctx ca_crl 0)) (leaf_with_uri 7)
     ''/etc/ca'' ''/etc/crl'' CRLP_ONLINE start = Inl Use_after_free"
proof -
  have "check_for_revocation (world (bytes_of ''gone'') (store_ctx ca_crl 0)) (leaf_with_uri 7)
     (store_ctx ca_crl 0) CRLP_ONLINE start = Inl Read_out_of_bounds"
    by code_simp
  with
    invalid_path_reads_freed_context [of "world [] (store_ctx ca_crl 0)" "''/etc/ca''"
      "''/etc/crl''" "leaf_cert 7" "store_ctx ca_crl 0" CRLP_NONE start]
    invalid_path_reads_freed_context [of "world [] (store_ctx ca_crl 0)" "''/etc/ca''"
      "''/etc/crl''" "leaf_cert 7" "store_ctx ca_crl 0" CRLP_OFFLINE start]
    invalid_path_reads_freed_context [of "world [] (store_ctx ca_crl 0)" "''/etc/ca''"
      "''/etc/crl''" "leaf_cert 7" "store_ctx ca_crl 0" CRLP_AUTO start]
    invalid_path_reads_freed_context [of "world (bytes_of ''gone'') (store_ctx ca_crl 0)"
      "''/etc/ca''" "''/etc/crl''" "leaf_with_uri 7" "store_ctx ca_crl 0" CRLP_ONLINE start]
  show ?thesis
    by (simp add: world_def store_ctx_def)
qed

text \<open>
  Claim C3. With policy NONE, when the store and the context are set up and path
  validation succeeds, \<open>verify_certificate\<close> returns \<open>1\<close>; between the call of
  \<open>X509_verify_cert\<close> and the return there is debug output only: no fetch from a URI
  and no lookup in the store.
\<close>

theorem policy_none:
  assumes "X509_STORE_new env" and "X509_STORE_add_lookup env"
    and "X509_LOOKUP_add_dir env ca_dir X509_FILETYPE_PEM = 1"
    and "X509_LOOKUP_add_dir env ca_dir X509_FILETYPE_ASN1 = 1"
    and "X509_LOOKUP_add_dir env crl_dir X509_FILETYPE_PEM = 1"
    and "X509_LOOKUP_add_dir env crl_dir X509_FILETYPE_ASN1 = 1"
    and "X509_STORE_CTX_new env ca_dir crl_dir x509 = Some ctx"
    and "verify_cert ctx = 1"
  shows "\<exists>s'. verify_certificate env x509 ca_dir crl_dir CRLP_NONE s = Inr (1, s') \<and>
           trace s' = trace s @
             [Dbg (Msg ''adding ca certificate lookup dir %s'' [Str ca_dir]),
              Dbg (Msg ''adding crl lookup dir %s'' [Str crl_dir]),
              Call_X509_verify_cert,
              Dbg (Msg ''certificate is valid'' []),
              Dbg (Msg ''crl policy: %d'' [Policy CRLP_NONE]),
              Dbg (Msg ''no revocation-check performed'' []),
              Dbg (Msg ''certificate has not been revoked'' [])] \<and>
           filter crl_io (trace s') = filter crl_io (trace s)"
  using assms
  by (simp add: verify_certificate_def check_NONE Let_def DBG1_def DBG_def emit_def set_error_def)

theorem policy_none_witness:
  "\<exists>s'. verify_certificate (world [] (store_ctx ca_crl 1)) (leaf_cert 7) ''/etc/ca'' ''/etc/crl''
           CRLP_NONE start = Inr (1, s') \<and> filter crl_io (trace s') = []"
  using policy_none [of "world [] (store_ctx ca_crl 1)" "''/etc/ca''" "''/etc/crl''"
      "leaf_cert 7" "store_ctx ca_crl 1" start]
  by (auto simp: world_def store_ctx_def start_def)

end
